theory Spec2Isabelle
  imports Complex_Main "HOL-Library.Word"
begin

section \<open>Data model of the indexer package\<close>

text \<open>
  Go's \<open>int64\<close> is a 64-bit word read in two's complement (\<open>sint\<close>); comparisons of
  heights are the signed ones (\<open>\<le>s\<close>, \<open><s\<close>) and \<open>currentHeight--\<close> wraps around.
  Go's \<open>int\<close> (transaction count, HTTP status code) never overflows on the paths
  modelled here and is an \<open>int\<close>. A \<open>time.Time\<close> is an instant counted from Go's zero
  time, so the zero value of the type is \<open>0\<close>.
\<close>

type_synonym int64 = "64 word"
type_synonym time = int

text \<open>\<open>sql.NullTime\<close>: a time and the flag saying that the column was not NULL.\<close>

record NullTime =
  Time :: time
  Valid :: bool

definition NullTime_zero :: NullTime where
  "NullTime_zero = \<lparr>Time = 0, Valid = False\<rparr>"

text \<open>
  \<open>BlockDetails\<close>, field by field. \<open>Details\<close> is a \<open>json.RawMessage\<close> (a byte slice):
  \<open>None\<close> is the nil slice, \<open>Some bs\<close> the bytes.
\<close>

record BlockDetails =
  Height :: int64
  BlockID :: string
  NumTransactions :: int
  Proposer :: string
  CreatedAt :: time
  UpdatedAt :: time
  DeletedAt :: NullTime
  Details :: "string option"

text \<open>The zero value \<open>BlockDetails{}\<close>, from which composite literals start.\<close>

definition BlockDetails_zero :: BlockDetails where
  "BlockDetails_zero =
     \<lparr>Height = 0, BlockID = [], NumTransactions = 0, Proposer = [],
      CreatedAt = 0, UpdatedAt = 0, DeletedAt = NullTime_zero, Details = None\<rparr>"

subsection \<open>Errors and outcomes\<close>

text \<open>
  The package builds every error with \<open>fmt.Errorf\<close>: \<open>Errorf m\<close> is a message with no
  cause, \<open>Wrapf m e\<close> is \<open>fmt.Errorf("m: %w", e)\<close>. The causes come from the libraries:
  \<open>http.Get\<close>, the JSON decoder, \<open>strconv.ParseInt\<close>, \<open>json.Marshal\<close> and
  \<open>database/sql\<close>. Arguments formatted into a message with \<open>%d\<close>, \<open>%T\<close> or \<open>%v\<close> (a
  status code, a type, a height) are not part of \<open>m\<close>.
\<close>

datatype error =
    Errorf string
  | Wrapf string error
  | TransportError string
  | JsonSyntaxError
  | JsonTypeError
  | ParseIntSyntax
  | ParseIntRange
  | ErrNoRows
  | SqlError string
  | ScanError nat
  | MarshalError

text \<open>
  A Go call with the result list \<open>(T, error)\<close> either returns a value together with an
  error that may be nil (\<open>None\<close>), or panics. The value is kept beside the error because
  a caller may go on with it (\<open>StartIndexing\<close> does). The only panics on the modelled paths
  are failed single-value type assertions \<open>x.(T)\<close>.
\<close>

datatype 'a outcome = Return 'a "error option" | Panic string

subsection \<open>Decoded JSON\<close>

text \<open>
  What \<open>encoding/json\<close> decodes into an \<open>interface{}\<close>: nil, bool, float64, string,
  \<open>[]interface{}\<close> and \<open>map[string]interface{}\<close>. An object is the list of the entries
  of the decoded map; \<open>map_of\<close> is the lookup with the comma-ok flag.
\<close>

datatype json =
    JNull
  | JBool bool
  | JNumber real
  | JString string
  | JArray "json list"
  | JObject "(string \<times> json) list"

text \<open>\<open>m[k]\<close> without comma-ok: a missing key yields the nil interface.\<close>

definition index :: "(string \<times> json) list \<Rightarrow> string \<Rightarrow> json" where
  "index m k = (case map_of m k of None \<Rightarrow> JNull | Some v \<Rightarrow> v)"

text \<open>
  \<open>json.NewDecoder(resp.Body).Decode(&result)\<close> with \<open>result\<close> a
  \<open>map[string]interface{}\<close>. The body is \<open>None\<close> when it holds no well-formed JSON
  value. A top-level \<open>null\<close> leaves the map nil (reads of a nil map find nothing); any
  other non-object is a type error.
\<close>

definition Decode :: "json option \<Rightarrow> error + (string \<times> json) list" where
  "Decode body =
     (case body of
        None \<Rightarrow> Inl JsonSyntaxError
      | Some JNull \<Rightarrow> Inr []
      | Some (JObject m) \<Rightarrow> Inr m
      | Some _ \<Rightarrow> Inl JsonTypeError)"

subsection \<open>The upstream node\<close>

text \<open>
  The four URLs the package requests:
  \<^item> \<open>RpcStatus\<close>: \<^verbatim>\<open>https://rpc.omniflix.network/status\<close>
  \<^item> \<open>RestLatestBlock\<close>: \<^verbatim>\<open>https://rest.omniflix.network/cosmos/base/tendermint/v1beta1/blocks/latest\<close>
  \<^item> \<open>RpcBlockResults h\<close>: \<^verbatim>\<open>https://rpc.omniflix.network/block_results?height=h\<close>
  \<^item> \<open>RpcBlock h\<close>: \<^verbatim>\<open>https://rpc.omniflix.network/block?height=h\<close>

  \<open>http.Get\<close> either fails (no response) or yields a status code and a body. One Go call
  requests each URL at most once, so the node is a function from URLs to results.
\<close>

datatype endpoint = RpcStatus | RestLatestBlock | RpcBlockResults int64 | RpcBlock int64

datatype http_result = GetFailed string | Response int "json option"

type_synonym upstream = "endpoint \<Rightarrow> http_result"

definition StatusOK :: int where
  "StatusOK = 200"

subsection \<open>\<open>strconv.ParseInt(s, 10, 64)\<close>\<close>

definition is_digit :: "char \<Rightarrow> bool" where
  "is_digit c = (c \<in> set ''0123456789'')"

definition digit_val :: "char \<Rightarrow> int" where
  "digit_val c = of_char c - 48"

text \<open>
  \<open>strconv.ParseUint\<close> reads the characters from left to right and returns at the first
  one it cannot take: a syntax error at a character that is not a decimal digit (base 10
  admits no underscores), a range error at the digit with which the value leaves
  \<open>uint64\<close>. \<open>n\<close> is the value read so far.
\<close>

definition maxUint64 :: int where
  "maxUint64 = 2 ^ 64 - 1"

fun ParseUint_digits :: "string \<Rightarrow> int \<Rightarrow> error + int" where
  "ParseUint_digits [] n = Inr n"
| "ParseUint_digits (c # cs) n =
     (if \<not> is_digit c then Inl ParseIntSyntax
      else if maxUint64 div 10 + 1 \<le> n then Inl ParseIntRange
      else if maxUint64 < n * 10 + digit_val c then Inl ParseIntRange
      else ParseUint_digits cs (n * 10 + digit_val c))"

definition ParseUint :: "string \<Rightarrow> error + int" where
  "ParseUint s = (if s = [] then Inl ParseIntSyntax else ParseUint_digits s 0)"

text \<open>
  \<open>strconv.ParseInt\<close>: an optional sign, then \<open>ParseUint\<close> of the rest. A range error of
  \<open>ParseUint\<close> comes with the greatest \<open>uint64\<close>, which is beyond the signed range for
  either sign, so every error of \<open>ParseUint\<close> is the error of \<open>ParseInt\<close>. Otherwise a
  magnitude beyond the 64-bit signed range is a range error.
\<close>

definition ParseInt :: "string \<Rightarrow> error + int64" where
  "ParseInt s =
     (if s = [] then Inl ParseIntSyntax
      else
        let neg = (hd s = CHR ''-'');
            ds = (if hd s = CHR ''+'' \<or> hd s = CHR ''-'' then tl s else s)
        in case ParseUint ds of
             Inl e \<Rightarrow> Inl e
           | Inr un \<Rightarrow>
               if \<not> neg \<and> un \<ge> 2 ^ 63 then Inl ParseIntRange
               else if neg \<and> un > 2 ^ 63 then Inl ParseIntRange
               else Inr (if neg then - word_of_int un else word_of_int un))"

section \<open>Height Resolver\<close>

text \<open>
  \<open>GetLatestBlockHeight\<close>. The status code of the response is not looked at. The
  expression \<open>result["result"].(map[string]interface{})["sync_info"]\<close> asserts the type
  of \<open>result["result"]\<close> in the single-value form, which panics when the value is not an
  object; only the assertion on \<open>sync_info\<close> has the comma-ok form.
\<close>

definition GetLatestBlockHeight :: "upstream \<Rightarrow> int64 outcome" where
  "GetLatestBlockHeight up =
     (case up RpcStatus of
        GetFailed m \<Rightarrow> Return 0 (Some (Wrapf ''error fetching status'' (TransportError m)))
      | Response code body \<Rightarrow>
          (case Decode body of
             Inl e \<Rightarrow> Return 0 (Some (Wrapf ''error decoding status'' e))
           | Inr result \<Rightarrow>
               (case index result ''result'' of
                  JObject r \<Rightarrow>
                    (case index r ''sync_info'' of
                       JObject syncInfo \<Rightarrow>
                         (case index syncInfo ''latest_block_height'' of
                            JString latestBlockHeight \<Rightarrow>
                              (case ParseInt latestBlockHeight of
                                 Inl e \<Rightarrow> Return 0 (Some (Wrapf ''error parsing latest block height'' e))
                               | Inr height \<Rightarrow> Return height None)
                          | _ \<Rightarrow> Return 0 (Some (Errorf ''latest_block_height not found in response'')))
                     | _ \<Rightarrow> Return 0 (Some (Errorf ''sync_info not found in response'')))
                | _ \<Rightarrow> Panic ''interface conversion: interface {} is not map[string]interface {}'')))"

text \<open>
  \<open>GetLatestBlockHeightFromREST\<close>: the status code is checked, and every type assertion
  has the comma-ok form.
\<close>

definition GetLatestBlockHeightFromREST :: "upstream \<Rightarrow> int64 outcome" where
  "GetLatestBlockHeightFromREST up =
     (case up RestLatestBlock of
        GetFailed m \<Rightarrow> Return 0 (Some (Wrapf ''error fetching latest block from REST API'' (TransportError m)))
      | Response code body \<Rightarrow>
          if code \<noteq> StatusOK then Return 0 (Some (Errorf ''REST API request failed with status code''))
          else
          (case Decode body of
             Inl e \<Rightarrow> Return 0 (Some (Wrapf ''error decoding latest block from REST API'' e))
           | Inr result \<Rightarrow>
               (case index result ''block'' of
                  JObject block \<Rightarrow>
                    (case index block ''header'' of
                       JObject header \<Rightarrow>
                         (case index header ''height'' of
                            JString heightStr \<Rightarrow>
                              (case ParseInt heightStr of
                                 Inl e \<Rightarrow> Return 0 (Some (Wrapf ''error parsing block height'' e))
                               | Inr height \<Rightarrow> Return height None)
                          | _ \<Rightarrow> Return 0 (Some (Errorf ''invalid REST API response: 'height' field not found'')))
                     | _ \<Rightarrow> Return 0 (Some (Errorf ''invalid REST API response: 'header' field not found'')))
                | _ \<Rightarrow> Return 0 (Some (Errorf ''invalid REST API response: 'block' field not found'')))))"

section \<open>Persistence Gateway\<close>

text \<open>
  The table \<open>blocks\<close> of \<open>db.CreateTable\<close>. Its primary key is \<open>block_height\<close>, so the
  table is a map from heights to the other seven columns of the row. Every one of those
  columns is declared without \<open>NOT NULL\<close>: \<open>None\<close> is NULL. \<open>details\<close> is the text of the
  JSONB value. \<open>failure\<close> is set while the server cannot be reached: every statement then
  fails with that driver error.
\<close>

record row =
  block_id :: "string option"
  proposer_address :: "string option"
  num_transactions :: "int option"
  details :: "string option"
  created_at :: "time option"
  updated_at :: "time option"
  deleted_at :: "time option"

record DB =
  blocks :: "int64 \<Rightarrow> row option"
  failure :: "string option"

text \<open>
  \<open>Scan\<close> of the row found for \<open>height\<close> into the eight fields, in the order of the
  \<open>SELECT\<close>: \<open>block_height\<close>, \<open>block_id\<close>, \<open>proposer_address\<close>, \<open>num_transactions\<close>,
  \<open>created_at\<close>, \<open>updated_at\<close>, \<open>deleted_at\<close>, \<open>details\<close>. \<open>database/sql\<close> converts NULL
  only into a destination made for it, here the \<open>sql.NullTime\<close> of \<open>DeletedAt\<close>; NULL
  for a \<open>string\<close>, an \<open>int\<close>, a \<open>time.Time\<close> or a \<open>json.RawMessage\<close> is an error, reported
  with the index of the first such column.
\<close>

definition Scan :: "int64 \<Rightarrow> row \<Rightarrow> error + BlockDetails" where
  "Scan height r =
     (case block_id r of
        None \<Rightarrow> Inl (ScanError 1)
      | Some b \<Rightarrow>
     (case proposer_address r of
        None \<Rightarrow> Inl (ScanError 2)
      | Some p \<Rightarrow>
     (case num_transactions r of
        None \<Rightarrow> Inl (ScanError 3)
      | Some n \<Rightarrow>
     (case created_at r of
        None \<Rightarrow> Inl (ScanError 4)
      | Some c \<Rightarrow>
     (case updated_at r of
        None \<Rightarrow> Inl (ScanError 5)
      | Some u \<Rightarrow>
     (case details r of
        None \<Rightarrow> Inl (ScanError 7)
      | Some d \<Rightarrow>
          Inr \<lparr>Height = height, BlockID = b, NumTransactions = n, Proposer = p,
               CreatedAt = c, UpdatedAt = u,
               DeletedAt = (case deleted_at r of
                              None \<Rightarrow> NullTime_zero
                            | Some t \<Rightarrow> \<lparr>Time = t, Valid = True\<rparr>),
               Details = Some d\<rparr>))))))"

text \<open>
  \<open>QueryRow("SELECT ... FROM blocks WHERE block_height = $1", height).Scan(...)\<close>:
  \<open>sql.ErrNoRows\<close> when no row has the height, else the result of \<open>Scan\<close>.
\<close>

definition QueryRow_Scan :: "DB \<Rightarrow> int64 \<Rightarrow> error + BlockDetails" where
  "QueryRow_Scan db height =
     (case failure db of
        Some m \<Rightarrow> Inl (SqlError m)
      | None \<Rightarrow> (case blocks db height of None \<Rightarrow> Inl ErrNoRows | Some r \<Rightarrow> Scan height r))"

text \<open>
  The statement of \<open>FetchAndStoreBlockDetails\<close>, with its seven parameters in order:
  \<^verbatim>\<open>INSERT INTO blocks (block_height, block_id, proposer_address, num_transactions,
     details, created_at, updated_at, deleted_at) VALUES ($1, $2, $3, $4, $5, $6, $7, NULL)
   ON CONFLICT (block_height) DO UPDATE SET block_id = EXCLUDED.block_id,
     proposer_address = EXCLUDED.proposer_address,
     num_transactions = EXCLUDED.num_transactions,
     details = EXCLUDED.details, updated_at = EXCLUDED.updated_at\<close>
\<close>

definition upsert ::
  "(int64 \<Rightarrow> row option) \<Rightarrow> int64 \<Rightarrow> string \<Rightarrow> string \<Rightarrow> int \<Rightarrow> string \<Rightarrow> time \<Rightarrow> time
     \<Rightarrow> (int64 \<Rightarrow> row option)" where
  "upsert t p1 p2 p3 p4 p5 p6 p7 =
     (case t p1 of
        None \<Rightarrow>
          t(p1 \<mapsto> \<lparr>block_id = Some p2, proposer_address = Some p3, num_transactions = Some p4,
                    details = Some p5, created_at = Some p6, updated_at = Some p7,
                    deleted_at = None\<rparr>)
      | Some r \<Rightarrow>
          t(p1 \<mapsto> r\<lparr>block_id := Some p2, proposer_address := Some p3,
                       num_transactions := Some p4, details := Some p5,
                       updated_at := Some p7\<rparr>))"

text \<open>
  \<open>ExecContext\<close> of that statement: it fails when the server cannot be reached, and
  when the count does not fit the column type \<open>INT\<close> (32 bits, signed).
\<close>

definition ExecContext :: "DB \<Rightarrow> int64 \<Rightarrow> string \<Rightarrow> string \<Rightarrow> int \<Rightarrow> string \<Rightarrow> time \<Rightarrow> time \<Rightarrow> error + DB" where
  "ExecContext db p1 p2 p3 p4 p5 p6 p7 =
     (case failure db of
        Some m \<Rightarrow> Inl (SqlError m)
      | None \<Rightarrow>
          if p4 < - (2 ^ 31) \<or> 2 ^ 31 \<le> p4 then Inl (SqlError ''integer out of range'')
          else Inr (db\<lparr>blocks := upsert (blocks db) p1 p2 p3 p4 p5 p6 p7\<rparr>))"

text \<open>
  \<open>json.Marshal\<close> of a \<open>json.RawMessage\<close>: \<open>null\<close> for the nil slice; other bytes are
  checked and compacted by the encoder, which is the parameter \<open>enc\<close>.
\<close>

definition Marshal :: "(string \<Rightarrow> error + string) \<Rightarrow> string option \<Rightarrow> error + string" where
  "Marshal enc m = (case m of None \<Rightarrow> Inr ''null'' | Some bs \<Rightarrow> enc bs)"

section \<open>Fetch Pipeline\<close>

text \<open>
  What a call does besides returning: the URLs it requests, the row lookups it makes,
  the entries into \<open>FetchAndStoreBlockDetails\<close>, the goroutines it starts and the lines
  it logs, in program order. The goroutine of \<open>FetchAndStoreBlockDetails\<close> is the closure
  over \<open>height\<close> and \<open>blockDetails\<close>.
\<close>

record persist_task =
  task_height :: int64
  task_block :: BlockDetails

datatype event =
    HttpGet endpoint
  | QueryRow int64
  | Enter_FetchAndStoreBlockDetails int64
  | Go persist_task
  | Log string error

text \<open>
  \<open>getBlock\<close>. The type assertions on \<open>block_id\<close>, \<open>block\<close> and \<open>header\<close> are in the
  single-value form and panic; those on \<open>result\<close>, \<open>hash\<close> and \<open>proposer_address\<close> have
  the comma-ok form. The status code is not looked at.
\<close>

definition getBlock :: "upstream \<Rightarrow> int64 \<Rightarrow> BlockDetails outcome \<times> event list" where
  "getBlock up height =
     (case up (RpcBlock height) of
        GetFailed m \<Rightarrow>
          Return BlockDetails_zero (Some (Wrapf ''error fetching block from RPC'' (TransportError m)))
      | Response code body \<Rightarrow>
          (case Decode body of
             Inl e \<Rightarrow> Return BlockDetails_zero (Some (Wrapf ''error decoding block from RPC'' e))
           | Inr result \<Rightarrow>
               (case index result ''result'' of
                  JObject resultResult \<Rightarrow>
                    (case index resultResult ''block_id'' of
                       JObject blockIdMap \<Rightarrow>
                         (case index blockIdMap ''hash'' of
                            JString blockID \<Rightarrow>
                              (case index resultResult ''block'' of
                                 JObject block \<Rightarrow>
                                   (case index block ''header'' of
                                      JObject header \<Rightarrow>
                                        (case index header ''proposer_address'' of
                                           JString proposer \<Rightarrow>
                                             Return (BlockDetails_zero\<lparr>BlockID := blockID, Proposer := proposer\<rparr>) None
                                         | _ \<Rightarrow> Return BlockDetails_zero
                                                 (Some (Errorf ''error extracting proposer_address from /block response'')))
                                    | _ \<Rightarrow> Panic ''interface conversion: interface {} is not map[string]interface {}'')
                               | _ \<Rightarrow> Panic ''interface conversion: interface {} is not map[string]interface {}'')
                          | _ \<Rightarrow> Return BlockDetails_zero
                                  (Some (Errorf ''error extracting block_id from /block response'')))
                     | _ \<Rightarrow> Panic ''interface conversion: interface {} is not map[string]interface {}'')
                | _ \<Rightarrow> Return BlockDetails_zero
                        (Some (Errorf ''invalid or missing 'result' field in /block API response'')))),
      [HttpGet (RpcBlock height)])"

text \<open>
  The switch of \<open>getBlockResults\<close> on the dynamic type of \<open>txs_results\<close>: a list counts
  its elements, nil counts 0, anything else is an error.
\<close>

definition count_txs :: "json \<Rightarrow> error + int" where
  "count_txs txsResults =
     (case txsResults of
        JArray txs \<Rightarrow> Inr (int (length txs))
      | JNull \<Rightarrow> Inr 0
      | _ \<Rightarrow> Inl (Errorf ''unexpected type for txs_results''))"

text \<open>
  \<open>getBlockResults\<close>: \<open>/block_results\<close> first, then \<open>getBlock\<close>, then the count. The status
  code is not looked at. The record is built from four fields; the others keep their
  zero values.
\<close>

definition getBlockResults :: "upstream \<Rightarrow> int64 \<Rightarrow> BlockDetails outcome \<times> event list" where
  "getBlockResults up height =
     (case up (RpcBlockResults height) of
        GetFailed m \<Rightarrow>
          (Return BlockDetails_zero (Some (Wrapf ''error fetching block results'' (TransportError m))),
           [HttpGet (RpcBlockResults height)])
      | Response code body \<Rightarrow>
          (case Decode body of
             Inl e \<Rightarrow>
               (Return BlockDetails_zero (Some (Wrapf ''error decoding block results'' e)),
                [HttpGet (RpcBlockResults height)])
           | Inr result \<Rightarrow>
               (case index result ''result'' of
                  JObject resultResult \<Rightarrow>
                    (case getBlock up height of
                       (Panic p, tr) \<Rightarrow> (Panic p, HttpGet (RpcBlockResults height) # tr)
                     | (Return blockData (Some e), tr) \<Rightarrow>
                         (Return BlockDetails_zero (Some (Wrapf ''error fetching block_id from /block'' e)),
                          HttpGet (RpcBlockResults height) # tr)
                     | (Return blockData None, tr) \<Rightarrow>
                         (case map_of resultResult ''txs_results'' of
                            None \<Rightarrow>
                              Return BlockDetails_zero
                                (Some (Errorf ''error extracting txs_results from block results''))
                          | Some txsResults \<Rightarrow>
                              (case count_txs txsResults of
                                 Inl e \<Rightarrow> Return BlockDetails_zero (Some e)
                               | Inr numTransactions \<Rightarrow>
                                   Return (BlockDetails_zero\<lparr>Height := height,
                                             BlockID := BlockID blockData,
                                             Proposer := Proposer blockData,
                                             NumTransactions := numTransactions\<rparr>) None),
                          HttpGet (RpcBlockResults height) # tr))
                | _ \<Rightarrow>
                    (Return BlockDetails_zero
                       (Some (Errorf ''invalid or missing 'result' field in /block_results API response'')),
                     [HttpGet (RpcBlockResults height)]))))"

text \<open>
  \<open>FetchAndStoreBlockDetails\<close>: on an error of \<open>getBlockResults\<close> it returns
  \<open>BlockDetails{}\<close> and the wrapped error before the \<open>go\<close> statement is reached; otherwise
  it starts the goroutine and returns the record as \<open>getBlockResults\<close> built it.
\<close>

definition FetchAndStoreBlockDetails :: "upstream \<Rightarrow> int64 \<Rightarrow> BlockDetails outcome \<times> event list" where
  "FetchAndStoreBlockDetails up height =
     (case getBlockResults up height of
        (Panic p, tr) \<Rightarrow> (Panic p, Enter_FetchAndStoreBlockDetails height # tr)
      | (Return blockDetails (Some e), tr) \<Rightarrow>
          (Return BlockDetails_zero (Some (Wrapf ''error getting block details'' e)),
           Enter_FetchAndStoreBlockDetails height # tr)
      | (Return blockDetails None, tr) \<Rightarrow>
          (Return blockDetails None,
           Enter_FetchAndStoreBlockDetails height # tr
             @ [Go \<lparr>task_height = height, task_block = blockDetails\<rparr>]))"

text \<open>
  The body of the goroutine. \<open>currentTime\<close> is what its \<open>time.Now()\<close> yielded, and both
  timestamps of the statement are that instant; \<open>db\<close> is the table the statement finds
  when it reaches the server. A failure is logged and leaves the table as it was.
\<close>

definition persist ::
  "(string \<Rightarrow> error + string) \<Rightarrow> persist_task \<Rightarrow> time \<Rightarrow> DB \<Rightarrow> DB \<times> event list" where
  "persist enc task currentTime db =
     (case Marshal enc (Details (task_block task)) of
        Inl e \<Rightarrow> (db, [Log ''Error marshaling details to JSON'' e])
      | Inr detailsJSON \<Rightarrow>
          (case ExecContext db (task_height task) (BlockID (task_block task))
                  (Proposer (task_block task)) (NumTransactions (task_block task))
                  detailsJSON currentTime currentTime of
             Inl e \<Rightarrow> (db, [Log ''Error storing block data in database'' e])
           | Inr db' \<Rightarrow> (db', [])))"

section \<open>Cache-Aside Accessor\<close>

text \<open>
  \<open>GetBlockDetails\<close> returns a pointer: \<open>None\<close> is nil. Only \<open>sql.ErrNoRows\<close> leads to
  the Fetch Pipeline.
\<close>

definition GetBlockDetails :: "DB \<Rightarrow> upstream \<Rightarrow> int64 \<Rightarrow> BlockDetails option outcome \<times> event list" where
  "GetBlockDetails db up height =
     (case QueryRow_Scan db height of
        Inr blockDetails \<Rightarrow> (Return (Some blockDetails) None, [QueryRow height])
      | Inl err \<Rightarrow>
          if err = ErrNoRows then
            (case FetchAndStoreBlockDetails up height of
               (Panic p, tr) \<Rightarrow> (Panic p, QueryRow height # tr)
             | (Return blockDetails (Some e), tr) \<Rightarrow>
                 (Return None (Some (Wrapf ''error fetching and storing block details'' e)),
                  QueryRow height # tr)
             | (Return blockDetails None, tr) \<Rightarrow>
                 (Return (Some blockDetails) None, QueryRow height # tr))
          else
            (Return None (Some (Wrapf ''error fetching block details from database'' err)),
             [QueryRow height]))"

text \<open>
  The goroutines a call started, the entries into the Fetch Pipeline, the lines logged
  and the URLs requested, in order.
\<close>

fun started :: "event list \<Rightarrow> persist_task list" where
  "started [] = []"
| "started (Go task # es) = task # started es"
| "started (_ # es) = started es"

fun entered :: "event list \<Rightarrow> int64 list" where
  "entered [] = []"
| "entered (Enter_FetchAndStoreBlockDetails h # es) = h # entered es"
| "entered (_ # es) = entered es"

fun logged :: "event list \<Rightarrow> (string \<times> error) list" where
  "logged [] = []"
| "logged (Log m e # es) = (m, e) # logged es"
| "logged (_ # es) = logged es"

fun requested :: "event list \<Rightarrow> endpoint list" where
  "requested [] = []"
| "requested (HttpGet u # es) = u # requested es"
| "requested (_ # es) = requested es"

text \<open>
  The table once goroutines have run to completion. The list is in the order in which
  their statements reach the server; each goroutine is paired with the instant its own
  \<open>time.Now()\<close> yielded, which it read before sending the statement.
\<close>

fun run_goroutines :: "(string \<Rightarrow> error + string) \<Rightarrow> (persist_task \<times> time) list \<Rightarrow> DB \<Rightarrow> DB" where
  "run_goroutines enc [] db = db"
| "run_goroutines enc ((task, currentTime) # rest) db =
     run_goroutines enc rest (fst (persist enc task currentTime db))"

section \<open>Backfill Scanner\<close>

subsection \<open>The upper bound of a scan\<close>

text \<open>
  The start of \<open>StartIndexing\<close>: the tip is resolved again, an error is only logged (the
  height returned with it is 0), and \<open>maxBlockHeight\<close> is replaced by the tip when the
  tip is greater. \<open>None\<close> stands for a panic of the resolver.
\<close>

definition StartIndexing_maxBlockHeight :: "upstream \<Rightarrow> int64 \<Rightarrow> int64 option" where
  "StartIndexing_maxBlockHeight up maxBlockHeight =
     (case GetLatestBlockHeightFromREST up of
        Panic p \<Rightarrow> None
      | Return latestHeight err \<Rightarrow>
          Some (if maxBlockHeight <s latestHeight then latestHeight else maxBlockHeight))"

text \<open>
  The same merge in \<open>main\<close>, where the ceiling is the constant 11553690 and an error of
  the resolver falls back to the ceiling.
\<close>

definition main_maxBlockHeight :: "upstream \<Rightarrow> int64 option" where
  "main_maxBlockHeight up =
     (let maxBlockHeight = 11553690 in
      case GetLatestBlockHeightFromREST up of
        Panic p \<Rightarrow> None
      | Return h err \<Rightarrow>
          (let latestHeight = (case err of Some e \<Rightarrow> maxBlockHeight | None \<Rightarrow> h)
           in Some (if maxBlockHeight <s latestHeight then latestHeight else maxBlockHeight)))"

subsection \<open>The loop and its goroutines\<close>

text \<open>
  \<open>StartIndexing\<close> runs concurrently with the goroutines it starts, so it is modelled
  by its atomic steps and a scheduler that picks who moves next. The program counter of
  \<open>StartIndexing\<close> itself:
  \<^item> \<open>LoopTest\<close>: the condition \<open>currentHeight >= minBlockHeight\<close>;
  \<^item> \<open>WgAdd\<close>: \<open>wg.Add(1)\<close>;
  \<^item> \<open>SemSend\<close>: \<open>semaphore <- struct{}{}\<close>, which blocks while the channel holds 100;
  \<^item> \<open>GoStmt\<close>: the \<open>go\<close> statement with the argument \<open>currentHeight\<close>, then
    \<open>currentHeight--\<close>;
  \<^item> \<open>WgWait\<close>: \<open>wg.Wait()\<close>, which blocks while the counter is not 0;
  \<^item> \<open>Returned\<close>.

  A goroutine of the loop is \<open>Fetching\<close> until its call of \<open>FetchAndStoreBlockDetails\<close>
  has returned (and the error, if any, is logged); its deferred calls then run in
  reverse order, the receive from the channel (\<open>Deferred_Release\<close>) before \<open>wg.Done()\<close>
  (\<open>Deferred_Done\<close>); then it has \<open>Exited\<close>.
\<close>

datatype pc = LoopTest | WgAdd | SemSend | GoStmt | WgWait | Returned

datatype phase = Fetching | Deferred_Release | Deferred_Done | Exited

record sched =
  pc :: pc
  currentHeight :: int64
  semaphore :: nat
  wg :: int
  units :: "(int64 \<times> phase) list"
  trace :: "event list"
  crashed :: bool

datatype actor = Main | Unit nat

definition capacity :: nat where
  "capacity = 100"

definition main_step :: "int64 \<Rightarrow> sched \<Rightarrow> sched option" where
  "main_step minBlockHeight s =
     (case pc s of
        LoopTest \<Rightarrow>
          Some (s\<lparr>pc := (if minBlockHeight \<le>s currentHeight s then WgAdd else WgWait)\<rparr>)
      | WgAdd \<Rightarrow> Some (s\<lparr>wg := wg s + 1, pc := SemSend\<rparr>)
      | SemSend \<Rightarrow>
          if semaphore s < capacity then Some (s\<lparr>semaphore := semaphore s + 1, pc := GoStmt\<rparr>)
          else None
      | GoStmt \<Rightarrow>
          Some (s\<lparr>units := units s @ [(currentHeight s, Fetching)],
                  currentHeight := currentHeight s - 1, pc := LoopTest\<rparr>)
      | WgWait \<Rightarrow> if wg s = 0 then Some (s\<lparr>pc := Returned\<rparr>) else None
      | Returned \<Rightarrow> None)"

text \<open>
  A step of the goroutine number \<open>i\<close> (in the order of the \<open>go\<close> statements). A panic
  inside the call is not recovered anywhere, so it ends the process.
\<close>

definition unit_step :: "upstream \<Rightarrow> nat \<Rightarrow> sched \<Rightarrow> sched option" where
  "unit_step up i s =
     (if i < length (units s) then
        (case units s ! i of
           (height, Fetching) \<Rightarrow>
             (case FetchAndStoreBlockDetails up height of
                (Panic p, tr) \<Rightarrow> Some (s\<lparr>trace := trace s @ tr, crashed := True\<rparr>)
              | (Return b err, tr) \<Rightarrow>
                  Some (s\<lparr>units := (units s)[i := (height, Deferred_Release)],
                          trace := trace s @ tr @
                            (case err of None \<Rightarrow> [] | Some e \<Rightarrow> [Log ''Error indexing block'' e])\<rparr>))
         | (height, Deferred_Release) \<Rightarrow>
             if 0 < semaphore s
             then Some (s\<lparr>units := (units s)[i := (height, Deferred_Done)],
                          semaphore := semaphore s - 1\<rparr>)
             else None
         | (height, Deferred_Done) \<Rightarrow>
             Some (s\<lparr>units := (units s)[i := (height, Exited)], wg := wg s - 1\<rparr>)
         | (height, Exited) \<Rightarrow> None)
      else None)"

definition step :: "upstream \<Rightarrow> int64 \<Rightarrow> actor \<Rightarrow> sched \<Rightarrow> sched option" where
  "step up minBlockHeight a s =
     (if crashed s then None
      else case a of Main \<Rightarrow> main_step minBlockHeight s | Unit i \<Rightarrow> unit_step up i s)"

text \<open>A schedule is the list of who moves; it is not a run when someone picked cannot move.\<close>

fun run :: "upstream \<Rightarrow> int64 \<Rightarrow> actor list \<Rightarrow> sched \<Rightarrow> sched option" where
  "run up minBlockHeight [] s = Some s"
| "run up minBlockHeight (a # as) s =
     (case step up minBlockHeight a s of
        None \<Rightarrow> None
      | Some s' \<Rightarrow> run up minBlockHeight as s')"

definition loop_entry :: "int64 \<Rightarrow> sched" where
  "loop_entry maxBlockHeight =
     \<lparr>pc = LoopTest, currentHeight = maxBlockHeight, semaphore = 0, wg = 0,
      units = [], trace = [], crashed = False\<rparr>"

text \<open>The state an invocation of \<open>StartIndexing\<close> is in after the given schedule.\<close>

definition StartIndexing :: "upstream \<Rightarrow> int64 \<Rightarrow> int64 \<Rightarrow> actor list \<Rightarrow> sched option" where
  "StartIndexing up minBlockHeight maxBlockHeight schedule =
     (case StartIndexing_maxBlockHeight up maxBlockHeight of
        None \<Rightarrow> None
      | Some m \<Rightarrow> run up minBlockHeight schedule (loop_entry m))"

text \<open>The goroutines that hold a slot of the channel: started and not yet past the receive.\<close>

definition holds_slot :: "int64 \<times> phase \<Rightarrow> bool" where
  "holds_slot u = (snd u = Fetching \<or> snd u = Deferred_Release)"

definition active :: "sched \<Rightarrow> nat" where
  "active s = length (filter holds_slot (units s))"

text \<open>The heights from \<open>m\<close> down to \<open>lo\<close>, both included, in descending order.\<close>

definition descending :: "int64 \<Rightarrow> int64 \<Rightarrow> int64 list" where
  "descending m lo = map (\<lambda>k. m - of_nat k) [0 ..< nat (sint m - sint lo + 1)]"

subsection \<open>Invariants of the loop and a bound on its steps\<close>

text \<open>
  The state of the channel: it holds one element per goroutine holding a slot, plus one
  between the send and the \<open>go\<close> statement, and never more than its capacity.
\<close>

definition gate_inv :: "sched \<Rightarrow> bool" where
  "gate_inv s =
     (semaphore s = active s + (if pc s = GoStmt then 1 else 0) \<and> semaphore s \<le> capacity)"

text \<open>A goroutine that has not yet called \<open>wg.Done()\<close>.\<close>

definition pending :: "int64 \<times> phase \<Rightarrow> bool" where
  "pending u = (snd u \<noteq> Exited)"

text \<open>
  The state of the sweep from \<open>m\<close> down to \<open>lo\<close>: the goroutines started so far are those
  of the heights \<open>m\<close>, \<open>m - 1\<close>, ... in this order, \<open>currentHeight\<close> is the next one, the
  loop body is entered only while heights are left, \<open>wg.Wait()\<close> is reached only when
  none is left, and the counter of the wait group counts the pending goroutines.
\<close>

definition sweep_inv :: "int64 \<Rightarrow> int64 \<Rightarrow> sched \<Rightarrow> bool" where
  "sweep_inv lo m s =
     (map fst (units s) = map (\<lambda>j. m - of_nat j) [0 ..< length (units s)]
      \<and> currentHeight s = m - of_nat (length (units s))
      \<and> length (units s) \<le> nat (sint m - sint lo + 1)
      \<and> (pc s \<in> {WgAdd, SemSend, GoStmt} \<longrightarrow> length (units s) < nat (sint m - sint lo + 1))
      \<and> (pc s \<in> {WgWait, Returned} \<longrightarrow> length (units s) = nat (sint m - sint lo + 1))
      \<and> wg s = int (length (filter pending (units s)))
                 + (if pc s \<in> {SemSend, GoStmt} then 1 else 0)
      \<and> (pc s = Returned \<longrightarrow> length (filter pending (units s)) = 0))"

text \<open>
  The number of steps an invocation has left: four per iteration of the loop, the last
  test and the wait, three per goroutine, and one that a panic uses up.
\<close>

fun phase_weight :: "phase \<Rightarrow> nat" where
  "phase_weight Fetching = 3"
| "phase_weight Deferred_Release = 2"
| "phase_weight Deferred_Done = 1"
| "phase_weight Exited = 0"

fun pc_weight :: "pc \<Rightarrow> nat \<Rightarrow> nat" where
  "pc_weight LoopTest n = 4 * n + 2"
| "pc_weight WgAdd n = 4 * n + 1"
| "pc_weight SemSend n = 4 * n"
| "pc_weight GoStmt n = 4 * n - 1"
| "pc_weight WgWait n = 1"
| "pc_weight Returned n = 0"

definition remaining :: "int64 \<Rightarrow> int64 \<Rightarrow> sched \<Rightarrow> nat" where
  "remaining lo m s =
     pc_weight (pc s) (nat (sint m - sint lo + 1) - length (units s))
       + 3 * (nat (sint m - sint lo + 1) - length (units s))
       + sum_list (map (\<lambda>u. phase_weight (snd u)) (units s))
       + (if crashed s then 0 else 1)"

section \<open>Fixtures\<close>

text \<open>
  A node that answers every height with two transactions, block id \<open>ABC\<close> and proposer
  \<open>P1\<close>, and has no tip to report.
\<close>

definition scenario_A :: upstream where
  "scenario_A u =
     (case u of
        RpcBlockResults h \<Rightarrow>
          Response 200 (Some (JObject [(''result'', JObject [(''txs_results'', JArray [JNull, JNull])])]))
      | RpcBlock h \<Rightarrow>
          Response 200 (Some (JObject [(''result'', JObject
             [(''block_id'', JObject [(''hash'', JString ''ABC'')]),
              (''block'', JObject [(''header'', JObject [(''proposer_address'', JString ''P1'')])])])]))
      | _ \<Rightarrow> GetFailed ''connection refused'')"

text \<open>The same node, answering \<open>/block_results\<close> at height 15 with status 500 and no JSON.\<close>

definition scenario_B :: upstream where
  "scenario_B u = (if u = RpcBlockResults 15 then Response 500 None else scenario_A u)"

text \<open>The same node with \<open>/block\<close> unreachable.\<close>

definition block_unreachable :: upstream where
  "block_unreachable u = (case u of RpcBlock h \<Rightarrow> GetFailed ''timeout'' | _ \<Rightarrow> scenario_A u)"

definition empty_db :: DB where
  "empty_db = \<lparr>blocks = (\<lambda>h. None), failure = None\<rparr>"

text \<open>A gateway that cannot be reached, and one that holds a row for height 10.\<close>

definition db_down :: DB where
  "db_down = \<lparr>blocks = (\<lambda>h. None), failure = Some ''connection refused''\<rparr>"

definition row_10 :: row where
  "row_10 = \<lparr>block_id = Some ''ABC'', proposer_address = Some ''P1'', num_transactions = Some 2,
      details = Some ''null'', created_at = Some 5, updated_at = Some 7, deleted_at = None\<rparr>"

text \<open>A gateway whose row for height 10 has NULL in \<open>details\<close>.\<close>

definition db_null_details :: DB where
  "db_null_details =
     \<lparr>blocks = (\<lambda>h. if h = 10 then Some (row_10\<lparr>details := None\<rparr>) else None), failure = None\<rparr>"

text \<open>
  The node of scenario A, answering \<open>/block_results\<close> with status 500 and the body it
  would send with status 200.
\<close>

definition results_500 :: upstream where
  "results_500 u =
     (case u of
        RpcBlockResults h \<Rightarrow>
          Response 500 (Some (JObject [(''result'', JObject [(''txs_results'', JArray [JNull, JNull])])]))
      | _ \<Rightarrow> scenario_A u)"

definition db_10 :: DB where
  "db_10 = \<lparr>blocks = (\<lambda>h. if h = 10 then Some row_10 else None), failure = None\<rparr>"

text \<open>The goroutine that the pipeline starts for height 10 on the node of scenario A.\<close>

definition task_10 :: persist_task where
  "task_10 = \<lparr>task_height = 10,
      task_block = BlockDetails_zero\<lparr>Height := 10, BlockID := ''ABC'', Proposer := ''P1'',
                     NumTransactions := 2\<rparr>\<rparr>"

text \<open>A node whose REST endpoint reports the tip \<open>s\<close>.\<close>

definition tip_node :: "string \<Rightarrow> upstream" where
  "tip_node s u =
     (case u of
        RestLatestBlock \<Rightarrow>
          Response 200 (Some (JObject [(''block'', JObject [(''header'', JObject [(''height'', JString s)])])]))
      | _ \<Rightarrow> scenario_A u)"

text \<open>
  A node that answers every request with status 500 and a JSON-RPC error body (no
  \<open>result\<close>), and one that answers with status 500 and a well-formed status body.
\<close>

definition rpc_error :: upstream where
  "rpc_error u = Response 500 (Some (JObject [(''error'', JString ''Internal error'')]))"

definition status_500 :: upstream where
  "status_500 u =
     Response 500 (Some (JObject [(''result'', JObject [(''sync_info'', JObject
        [(''latest_block_height'', JString ''42'')])])]))"

text \<open>
  A schedule of the sweep of scenario A (heights 12 down to 10) that runs it to its return,
  with the goroutines interleaved with the loop.
\<close>

definition scenario_A_schedule :: "actor list" where
  "scenario_A_schedule =
     [Main, Main, Main, Main, Unit 0, Main, Main, Main, Main, Unit 1, Unit 0,
      Main, Main, Main, Main, Main, Unit 2, Unit 2, Unit 1, Unit 0, Unit 1, Unit 2, Main]"

text \<open>The node of scenario A, answering \<open>/block\<close> with a \<open>result\<close> that has no \<open>block_id\<close>.\<close>

definition no_block_id :: upstream where
  "no_block_id u =
     (case u of RpcBlock h \<Rightarrow> Response 200 (Some (JObject [(''result'', JObject [])]))
      | _ \<Rightarrow> scenario_A u)"

text \<open>
  \<open>n\<close> iterations of the loop with no goroutine moving, and the state they lead to from
  the entry of the loop at \<open>m\<close>: \<open>n\<close> goroutines, all fetching.
\<close>

definition iterations :: "nat \<Rightarrow> actor list" where
  "iterations n = concat (replicate n [Main, Main, Main, Main])"

definition fetching :: "int64 \<Rightarrow> nat \<Rightarrow> sched" where
  "fetching m n =
     \<lparr>pc = LoopTest, currentHeight = m - of_nat n, semaphore = n, wg = int n,
      units = map (\<lambda>j. (m - of_nat j, Fetching)) [0 ..< n], trace = [], crashed = False\<rparr>"

section \<open>Properties of the Fetch Pipeline and the Accessor\<close>

subsection \<open>Traces and results of the pipeline\<close>

lemma getBlock_trace: "snd (getBlock up h) = [HttpGet (RpcBlock h)]"
  by (simp add: getBlock_def)

lemma getBlockResults_ok:
  "fst (getBlockResults up h) = Return r None \<Longrightarrow>
     Height r = h \<and> CreatedAt r = 0 \<and> UpdatedAt r = 0 \<and> DeletedAt r = NullTime_zero
       \<and> Details r = None \<and> 0 \<le> NumTransactions r"
  by (auto simp: getBlockResults_def count_txs_def BlockDetails_zero_def
      split: http_result.splits sum.splits json.splits prod.splits outcome.splits option.splits)

lemma getBlockResults_started: "started (snd (getBlockResults up h)) = []"
  by (cases "getBlock up h")
     (use getBlock_trace [of up h] in \<open>auto simp: getBlockResults_def
      split: http_result.splits sum.splits json.splits outcome.splits option.splits\<close>)

lemma getBlockResults_entered: "entered (snd (getBlockResults up h)) = []"
  by (cases "getBlock up h")
     (use getBlock_trace [of up h] in \<open>auto simp: getBlockResults_def
      split: http_result.splits sum.splits json.splits outcome.splits option.splits\<close>)

lemma FetchAndStore_cases:
  "FetchAndStoreBlockDetails up h =
     (case fst (getBlockResults up h) of
        Panic p \<Rightarrow> (Panic p, Enter_FetchAndStoreBlockDetails h # snd (getBlockResults up h))
      | Return b (Some e) \<Rightarrow>
          (Return BlockDetails_zero (Some (Wrapf ''error getting block details'' e)),
           Enter_FetchAndStoreBlockDetails h # snd (getBlockResults up h))
      | Return b None \<Rightarrow>
          (Return b None,
           Enter_FetchAndStoreBlockDetails h # snd (getBlockResults up h)
             @ [Go \<lparr>task_height = h, task_block = b\<rparr>]))"
  by (cases "getBlockResults up h")
     (simp add: FetchAndStoreBlockDetails_def split: outcome.splits option.splits)

lemma started_append: "started (xs @ ys) = started xs @ started ys"
  by (induction xs rule: started.induct) simp_all

lemma entered_append: "entered (xs @ ys) = entered xs @ entered ys"
  by (induction xs rule: entered.induct) simp_all

lemma FetchAndStore_entered: "entered (snd (FetchAndStoreBlockDetails up h)) = [h]"
  by (simp add: FetchAndStore_cases getBlockResults_entered entered_append
      split: outcome.splits option.splits)

lemma FetchAndStore_started:
  "started (snd (FetchAndStoreBlockDetails up h)) =
     (case fst (FetchAndStoreBlockDetails up h) of
        Return b None \<Rightarrow> [\<lparr>task_height = h, task_block = b\<rparr>]
      | _ \<Rightarrow> [])"
  by (simp add: FetchAndStore_cases getBlockResults_started started_append
      split: outcome.splits option.splits)

lemma getBlockResults_getBlock_error:
  assumes "up (RpcBlockResults h) = Response code body" and "Decode body = Inr result"
    and "index result ''result'' = JObject rr" and "fst (getBlock up h) = Return v (Some e)"
  shows "fst (getBlockResults up h) =
           Return BlockDetails_zero (Some (Wrapf ''error fetching block_id from /block'' e))"
  using assms by (cases "getBlock up h") (simp add: getBlockResults_def)

lemma GetBlockDetails_miss:
  assumes "failure db = None" and "blocks db h = None"
  shows "GetBlockDetails db up h =
     (case fst (FetchAndStoreBlockDetails up h) of
        Panic p \<Rightarrow> (Panic p, QueryRow h # snd (FetchAndStoreBlockDetails up h))
      | Return b (Some e) \<Rightarrow>
          (Return None (Some (Wrapf ''error fetching and storing block details'' e)),
           QueryRow h # snd (FetchAndStoreBlockDetails up h))
      | Return b None \<Rightarrow> (Return (Some b) None, QueryRow h # snd (FetchAndStoreBlockDetails up h)))"
  using assms
  by (cases "FetchAndStoreBlockDetails up h")
     (simp add: GetBlockDetails_def QueryRow_Scan_def split: outcome.splits option.splits)

lemma FetchAndStore_ok:
  "fst (FetchAndStoreBlockDetails up h) = Return r None \<Longrightarrow>
     fst (getBlockResults up h) = Return r None"
  by (simp add: FetchAndStore_cases split: outcome.splits option.splits)


lemma Scan_not_ErrNoRows: "Scan h r \<noteq> Inl ErrNoRows"
  by (simp add: Scan_def split: option.splits)

lemma GetBlockDetails_miss':
  assumes "QueryRow_Scan db h = Inl ErrNoRows"
  shows "failure db = None \<and> blocks db h = None"
proof (cases "failure db")
  case None
  show ?thesis
  proof (cases "blocks db h")
    case (Some r)
    with None assms Scan_not_ErrNoRows [of h r] show ?thesis
      by (simp add: QueryRow_Scan_def)
  qed (simp add: None)
next
  case (Some m)
  with assms show ?thesis
    by (simp add: QueryRow_Scan_def)
qed

lemma persist_nil_details:
  assumes "failure db = None" and "Details (task_block task) = None"
    and "- (2 ^ 31) \<le> NumTransactions (task_block task)" and "NumTransactions (task_block task) < 2 ^ 31"
  shows "persist enc task t db =
           (db\<lparr>blocks := upsert (blocks db) (task_height task) (BlockID (task_block task))
                   (Proposer (task_block task)) (NumTransactions (task_block task)) ''null'' t t\<rparr>, [])"
  using assms by (simp add: persist_def Marshal_def ExecContext_def)

lemma persist_failure: "failure (fst (persist enc task t db)) = failure db"
  by (auto simp: persist_def ExecContext_def split: sum.splits option.splits if_splits)

lemma persist_other: "h' \<noteq> task_height task \<Longrightarrow> blocks (fst (persist enc task t db)) h' = blocks db h'"
  by (auto simp: persist_def ExecContext_def upsert_def split: sum.splits option.splits if_splits)

lemma upsert_absent:
  "t h = None \<Longrightarrow>
     upsert t h b p n d c u =
       t(h \<mapsto> \<lparr>block_id = Some b, proposer_address = Some p, num_transactions = Some n,
                 details = Some d, created_at = Some c, updated_at = Some u,
                 deleted_at = None\<rparr>)"
  by (simp add: upsert_def)

lemma upsert_present:
  "t h = Some r \<Longrightarrow>
     upsert t h b p n d c u =
       t(h \<mapsto> r\<lparr>block_id := Some b, proposer_address := Some p, num_transactions := Some n,
                   details := Some d, updated_at := Some u\<rparr>)"
  by (simp add: upsert_def)

lemma persist_row:
  assumes "blocks db (task_height task) = Some r1"
  shows "\<exists>r2. blocks (fst (persist enc task t db)) (task_height task) = Some r2
               \<and> created_at r2 = created_at r1
               \<and> (updated_at r2 = updated_at r1 \<or> updated_at r2 = Some t)"
  using assms
  by (auto simp: persist_def ExecContext_def upsert_def split: sum.splits option.splits if_splits)

lemma persist_fetched:
  assumes f: "fst (FetchAndStoreBlockDetails up h) = Return b None"
    and db: "failure db = None" and n: "NumTransactions b < 2 ^ 31"
  shows "run_goroutines enc (zip (started (snd (FetchAndStoreBlockDetails up h))) [t]) db =
           db\<lparr>blocks := upsert (blocks db) h (BlockID b) (Proposer b) (NumTransactions b) ''null'' t t\<rparr>"
proof -
  note z = getBlockResults_ok [OF FetchAndStore_ok [OF f]]
  have "started (snd (FetchAndStoreBlockDetails up h)) = [\<lparr>task_height = h, task_block = b\<rparr>]"
    using f by (simp add: FetchAndStore_started)
  moreover have "persist enc \<lparr>task_height = h, task_block = b\<rparr> t db =
      (db\<lparr>blocks := upsert (blocks db) h (BlockID b) (Proposer b) (NumTransactions b) ''null'' t t\<rparr>, [])"
    using db z n by (subst persist_nil_details) simp_all
  ultimately show ?thesis by simp
qed

text \<open>
  The pipeline on well-formed answers: the record, and everything the call did.
\<close>

lemma FetchAndStore_success:
  assumes "up (RpcBlockResults h) = Response code body" and "Decode body = Inr result"
    and "index result ''result'' = JObject rr" and "map_of rr ''txs_results'' = Some txs"
    and "fst (getBlock up h) = Return bd None"
    and "txs = JNull \<or> txs = JArray xs"
  shows "FetchAndStoreBlockDetails up h =
           (Return (BlockDetails_zero\<lparr>Height := h, BlockID := BlockID bd, Proposer := Proposer bd,
                      NumTransactions := (if txs = JNull then 0 else int (length xs))\<rparr>) None,
            [Enter_FetchAndStoreBlockDetails h, HttpGet (RpcBlockResults h), HttpGet (RpcBlock h),
             Go \<lparr>task_height = h,
                 task_block = BlockDetails_zero\<lparr>Height := h, BlockID := BlockID bd,
                   Proposer := Proposer bd,
                   NumTransactions := (if txs = JNull then 0 else int (length xs))\<rparr>\<rparr>])"
proof -
  let ?n = "if txs = JNull then 0 else int (length xs)"
  have c: "count_txs txs = Inr ?n"
    using assms(6) by (auto simp: count_txs_def)
  have tr: "snd (getBlock up h) = [HttpGet (RpcBlock h)]"
    by (rule getBlock_trace)
  have "getBlockResults up h =
          (Return (BlockDetails_zero\<lparr>Height := h, BlockID := BlockID bd, Proposer := Proposer bd,
                     NumTransactions := ?n\<rparr>) None,
           [HttpGet (RpcBlockResults h), HttpGet (RpcBlock h)])"
    using assms(1-5) tr c by (cases "getBlock up h") (simp add: getBlockResults_def)
  then show ?thesis
    by (simp add: FetchAndStoreBlockDetails_def)
qed

subsection \<open>The fixtures, evaluated\<close>

lemma block_unreachable_getBlock:
  "fst (getBlock block_unreachable 15) =
     Return BlockDetails_zero (Some (Wrapf ''error fetching block from RPC'' (TransportError ''timeout'')))"
  by (simp add: getBlock_def block_unreachable_def)

lemma block_unreachable_results:
  "block_unreachable (RpcBlockResults 15) =
     Response 200 (Some (JObject [(''result'', JObject [(''txs_results'', JArray [JNull, JNull])])]))"
  by (simp add: block_unreachable_def scenario_A_def)

lemma scenario_B_getBlockResults:
  "fst (getBlockResults scenario_B 15) =
     Return BlockDetails_zero (Some (Wrapf ''error decoding block results'' JsonSyntaxError))"
  by (simp add: getBlockResults_def scenario_B_def Decode_def)

lemma scenario_A_getBlock:
  "getBlock scenario_A h =
     (Return (BlockDetails_zero\<lparr>BlockID := ''ABC'', Proposer := ''P1''\<rparr>) None, [HttpGet (RpcBlock h)])"
  by (simp add: getBlock_def scenario_A_def Decode_def index_def)

lemma scenario_A_getBlockResults:
  "getBlockResults scenario_A h =
     (Return (BlockDetails_zero\<lparr>Height := h, BlockID := ''ABC'', Proposer := ''P1'',
                NumTransactions := 2\<rparr>) None,
      [HttpGet (RpcBlockResults h), HttpGet (RpcBlock h)])"
  by (simp add: getBlockResults_def scenario_A_getBlock count_txs_def scenario_A_def Decode_def
      index_def)

lemma scenario_A_fetch:
  "FetchAndStoreBlockDetails scenario_A h =
     (Return (BlockDetails_zero\<lparr>Height := h, BlockID := ''ABC'', Proposer := ''P1'',
                NumTransactions := 2\<rparr>) None,
      [Enter_FetchAndStoreBlockDetails h, HttpGet (RpcBlockResults h), HttpGet (RpcBlock h),
       Go \<lparr>task_height = h,
           task_block = BlockDetails_zero\<lparr>Height := h, BlockID := ''ABC'', Proposer := ''P1'',
                NumTransactions := 2\<rparr>\<rparr>])"
  by (simp add: FetchAndStoreBlockDetails_def scenario_A_getBlockResults)

lemma task_10_started: "started (snd (FetchAndStoreBlockDetails scenario_A 10)) = [task_10]"
  by (simp add: scenario_A_fetch task_10_def)

lemma ParseInt_12000000: "ParseInt ''12000000'' = Inr 12000000"
  by (simp add: ParseInt_def ParseUint_def maxUint64_def digit_val_def is_digit_def)

lemma ParseInt_42: "ParseInt ''42'' = Inr 42"
  by (simp add: ParseInt_def ParseUint_def maxUint64_def digit_val_def is_digit_def)

lemma ParseInt_min: "ParseInt ''-9223372036854775808'' = Inr (- 9223372036854775808)"
  by (simp add: ParseInt_def ParseUint_def maxUint64_def digit_val_def is_digit_def)

lemma tip_node_12000000: "GetLatestBlockHeightFromREST (tip_node ''12000000'') = Return 12000000 None"
  by (simp add: GetLatestBlockHeightFromREST_def tip_node_def Decode_def index_def StatusOK_def ParseInt_12000000)

subsection \<open>Failure of an upstream call\<close>

text \<open>
  What \<open>FetchAndStoreBlockDetails\<close> does with an error that \<open>getBlockResults\<close> returns,
  or that \<open>getBlock\<close> returns to it: the zero record \<open>BlockDetails{}\<close> with the error
  wrapped. Whenever the pipeline does not return a record without error, it has started
  no goroutine, so no statement is sent and the table is what it was.
\<close>

lemma FetchAndStore_error_starts_nothing:
  "(fst (getBlockResults up h) = Return v (Some e) \<longrightarrow>
      fst (FetchAndStoreBlockDetails up h) =
        Return BlockDetails_zero (Some (Wrapf ''error getting block details'' e)))
   \<and> (up (RpcBlockResults h) = Response code body \<and> Decode body = Inr result
        \<and> index result ''result'' = JObject rr \<and> fst (getBlock up h) = Return v' (Some e') \<longrightarrow>
      fst (FetchAndStoreBlockDetails up h) =
        Return BlockDetails_zero (Some (Wrapf ''error getting block details''
          (Wrapf ''error fetching block_id from /block'' e'))))
   \<and> ((\<forall>b. fst (FetchAndStoreBlockDetails up h) \<noteq> Return b None) \<longrightarrow>
        started (snd (FetchAndStoreBlockDetails up h)) = []
        \<and> run_goroutines enc (zip (started (snd (FetchAndStoreBlockDetails up h))) ts) db = db)"
proof (intro conjI impI)
  assume "fst (getBlockResults up h) = Return v (Some e)"
  then show "fst (FetchAndStoreBlockDetails up h) =
        Return BlockDetails_zero (Some (Wrapf ''error getting block details'' e))"
    by (simp add: FetchAndStore_cases)
next
  assume "up (RpcBlockResults h) = Response code body \<and> Decode body = Inr result
        \<and> index result ''result'' = JObject rr \<and> fst (getBlock up h) = Return v' (Some e')"
  then have "fst (getBlockResults up h) =
           Return BlockDetails_zero (Some (Wrapf ''error fetching block_id from /block'' e'))"
    using getBlockResults_getBlock_error by blast
  then show "fst (FetchAndStoreBlockDetails up h) =
        Return BlockDetails_zero (Some (Wrapf ''error getting block details''
          (Wrapf ''error fetching block_id from /block'' e')))"
    by (simp add: FetchAndStore_cases)
next
  assume a: "\<forall>b. fst (FetchAndStoreBlockDetails up h) \<noteq> Return b None"
  then show s: "started (snd (FetchAndStoreBlockDetails up h)) = []"
    by (simp add: FetchAndStore_started split: outcome.splits option.splits)
  show "run_goroutines enc (zip (started (snd (FetchAndStoreBlockDetails up h))) ts) db = db"
    by (simp add: s)
qed

text \<open>
  The failures the two calls do detect: no response, and a body that is not a JSON
  object with a \<open>result\<close> object.
\<close>

lemma FetchAndStore_transport_failure:
  assumes "up (RpcBlockResults h) = GetFailed m"
  shows "FetchAndStoreBlockDetails up h =
           (Return BlockDetails_zero (Some (Wrapf ''error getting block details''
              (Wrapf ''error fetching block results'' (TransportError m)))),
            [Enter_FetchAndStoreBlockDetails h, HttpGet (RpcBlockResults h)])"
  using assms by (simp add: FetchAndStoreBlockDetails_def getBlockResults_def)

lemma FetchAndStore_malformed_body:
  assumes "up (RpcBlockResults h) = Response code body" and "Decode body = Inl e"
  shows "FetchAndStoreBlockDetails up h =
           (Return BlockDetails_zero (Some (Wrapf ''error getting block details''
              (Wrapf ''error decoding block results'' e))),
            [Enter_FetchAndStoreBlockDetails h, HttpGet (RpcBlockResults h)])"
  using assms by (simp add: FetchAndStoreBlockDetails_def getBlockResults_def)

lemma scenario_B_fetch:
  "FetchAndStoreBlockDetails scenario_B 15 =
     (Return BlockDetails_zero (Some (Wrapf ''error getting block details''
        (Wrapf ''error decoding block results'' JsonSyntaxError))),
      [Enter_FetchAndStoreBlockDetails 15, HttpGet (RpcBlockResults 15)])"
  by (rule FetchAndStore_malformed_body [where code = 500 and body = None])
     (simp_all add: scenario_B_def Decode_def)

text \<open>
  C1. A failure of an upstream call that shows in the status code alone is not detected:
  neither \<open>getBlockResults\<close> nor \<open>getBlock\<close> reads \<open>resp.StatusCode\<close>. When
  \<open>/block_results\<close> answers height 15 with status 500 and a well-formed body, the pipeline
  returns a record without error and starts the goroutine, whose upsert writes the row
  for height 15. When \<open>/block\<close> answers with a \<open>result\<close> that has no \<open>block_id\<close>, the
  pipeline panics in the single-value type assertion and returns no error at all.
\<close>

theorem fetch_accepts_status_500:
  "results_500 (RpcBlockResults 15)
     = Response 500 (Some (JObject [(''result'', JObject [(''txs_results'', JArray [JNull, JNull])])]))
   \<and> FetchAndStoreBlockDetails results_500 15 =
       (Return (BlockDetails_zero\<lparr>Height := 15, BlockID := ''ABC'', Proposer := ''P1'',
                  NumTransactions := 2\<rparr>) None,
        [Enter_FetchAndStoreBlockDetails 15, HttpGet (RpcBlockResults 15), HttpGet (RpcBlock 15),
         Go \<lparr>task_height = 15,
             task_block = BlockDetails_zero\<lparr>Height := 15, BlockID := ''ABC'', Proposer := ''P1'',
                            NumTransactions := 2\<rparr>\<rparr>])
   \<and> blocks (run_goroutines Inr
         (zip (started (snd (FetchAndStoreBlockDetails results_500 15))) [7]) empty_db) 15
       = Some \<lparr>block_id = Some ''ABC'', proposer_address = Some ''P1'', num_transactions = Some 2,
               details = Some ''null'', created_at = Some 7, updated_at = Some 7,
               deleted_at = None\<rparr>
   \<and> fst (FetchAndStoreBlockDetails no_block_id 15)
       = Panic ''interface conversion: interface {} is not map[string]interface {}''"
proof -
  have g: "getBlock results_500 15 =
     (Return (BlockDetails_zero\<lparr>BlockID := ''ABC'', Proposer := ''P1''\<rparr>) None, [HttpGet (RpcBlock 15)])"
    by (simp add: getBlock_def results_500_def scenario_A_def Decode_def index_def)
  have r: "results_500 (RpcBlockResults 15)
     = Response 500 (Some (JObject [(''result'', JObject [(''txs_results'', JArray [JNull, JNull])])]))"
    by (simp add: results_500_def)
  have f: "FetchAndStoreBlockDetails results_500 15 =
       (Return (BlockDetails_zero\<lparr>Height := 15, BlockID := ''ABC'', Proposer := ''P1'',
                  NumTransactions := 2\<rparr>) None,
        [Enter_FetchAndStoreBlockDetails 15, HttpGet (RpcBlockResults 15), HttpGet (RpcBlock 15),
         Go \<lparr>task_height = 15,
             task_block = BlockDetails_zero\<lparr>Height := 15, BlockID := ''ABC'', Proposer := ''P1'',
                            NumTransactions := 2\<rparr>\<rparr>])"
    by (simp add: FetchAndStoreBlockDetails_def getBlockResults_def r g Decode_def index_def
        count_txs_def)
  have w: "blocks (run_goroutines Inr
         (zip (started (snd (FetchAndStoreBlockDetails results_500 15))) [7]) empty_db) 15
       = Some \<lparr>block_id = Some ''ABC'', proposer_address = Some ''P1'', num_transactions = Some 2,
               details = Some ''null'', created_at = Some 7, updated_at = Some 7,
               deleted_at = None\<rparr>"
    by (simp add: f persist_def Marshal_def ExecContext_def upsert_def empty_db_def
        BlockDetails_zero_def)
  have p: "fst (FetchAndStoreBlockDetails no_block_id 15)
       = Panic ''interface conversion: interface {} is not map[string]interface {}''"
    by (simp add: FetchAndStoreBlockDetails_def getBlockResults_def getBlock_def no_block_id_def
        scenario_A_def Decode_def index_def)
  from r f w p show ?thesis
    by (intro conjI)
qed

subsection \<open>Cache hit\<close>

text \<open>
  C2, as amended. When the gateway answers and holds a row for the height with no NULL
  in a column other than \<open>deleted_at\<close>, \<open>GetBlockDetails\<close> returns the record of that row,
  column by column, and all it did was the one lookup. For every row it holds, with NULL
  or without, the lookup is all that happens: no URL is requested and the Fetch Pipeline
  is not entered; the result is what \<open>Scan\<close> makes of the row. The row that the upsert
  inserts for a new height has no NULL but in \<open>deleted_at\<close>.
\<close>

theorem cache_hit_verbatim:
  "(failure db = None
      \<and> blocks db h = Some \<lparr>block_id = Some b, proposer_address = Some p, num_transactions = Some n,
                           details = Some d, created_at = Some c, updated_at = Some u,
                           deleted_at = del\<rparr> \<longrightarrow>
      GetBlockDetails db up h =
        (Return (Some \<lparr>Height = h, BlockID = b, NumTransactions = n, Proposer = p,
                       CreatedAt = c, UpdatedAt = u,
                       DeletedAt = (case del of None \<Rightarrow> NullTime_zero
                                    | Some t \<Rightarrow> \<lparr>Time = t, Valid = True\<rparr>),
                       Details = Some d\<rparr>) None,
         [QueryRow h]))
   \<and> (failure db = None \<and> blocks db h = Some r \<longrightarrow>
        GetBlockDetails db up h =
          (case Scan h r of
             Inr blockDetails \<Rightarrow> Return (Some blockDetails) None
           | Inl e \<Rightarrow> Return None (Some (Wrapf ''error fetching block details from database'' e)),
           [QueryRow h])
        \<and> requested (snd (GetBlockDetails db up h)) = []
        \<and> entered (snd (GetBlockDetails db up h)) = [])
   \<and> (t h = None \<longrightarrow>
        map_option (Scan h) (upsert t h b p n d c u h) =
          Some (Inr \<lparr>Height = h, BlockID = b, NumTransactions = n, Proposer = p,
                     CreatedAt = c, UpdatedAt = u, DeletedAt = NullTime_zero,
                     Details = Some d\<rparr>))"
proof (intro conjI impI)
  assume "failure db = None
      \<and> blocks db h = Some \<lparr>block_id = Some b, proposer_address = Some p, num_transactions = Some n,
                           details = Some d, created_at = Some c, updated_at = Some u,
                           deleted_at = del\<rparr>"
  then show "GetBlockDetails db up h =
        (Return (Some \<lparr>Height = h, BlockID = b, NumTransactions = n, Proposer = p,
                       CreatedAt = c, UpdatedAt = u,
                       DeletedAt = (case del of None \<Rightarrow> NullTime_zero
                                    | Some t \<Rightarrow> \<lparr>Time = t, Valid = True\<rparr>),
                       Details = Some d\<rparr>) None,
         [QueryRow h])"
    by (simp add: GetBlockDetails_def QueryRow_Scan_def Scan_def)
next
  assume a: "failure db = None \<and> blocks db h = Some r"
  then have q: "QueryRow_Scan db h = Scan h r"
    by (simp add: QueryRow_Scan_def)
  show g: "GetBlockDetails db up h =
          (case Scan h r of
             Inr blockDetails \<Rightarrow> Return (Some blockDetails) None
           | Inl e \<Rightarrow> Return None (Some (Wrapf ''error fetching block details from database'' e)),
           [QueryRow h])"
    using Scan_not_ErrNoRows [of h r]
    by (cases "Scan h r") (simp_all add: GetBlockDetails_def q)
  show "requested (snd (GetBlockDetails db up h)) = []"
    by (simp add: g)
  show "entered (snd (GetBlockDetails db up h)) = []"
    by (simp add: g)
next
  assume "t h = None"
  then show "map_option (Scan h) (upsert t h b p n d c u h) =
          Some (Inr \<lparr>Height = h, BlockID = b, NumTransactions = n, Proposer = p,
                     CreatedAt = c, UpdatedAt = u, DeletedAt = NullTime_zero,
                     Details = Some d\<rparr>)"
    by (simp add: upsert_absent Scan_def)
qed

theorem cache_hit_verbatim_witness:
  "GetBlockDetails db_10 scenario_A 10 =
     (Return (Some \<lparr>Height = 10, BlockID = ''ABC'', NumTransactions = 2, Proposer = ''P1'',
                    CreatedAt = 5, UpdatedAt = 7, DeletedAt = NullTime_zero,
                    Details = Some ''null''\<rparr>) None,
      [QueryRow 10])
   \<and> requested (snd (GetBlockDetails db_10 scenario_A 10)) = []
   \<and> entered (snd (GetBlockDetails db_10 scenario_A 10)) = []
   \<and> requested (snd (GetBlockDetails db_null_details scenario_A 10)) = []"
proof -
  have 1: "failure db_10 = None
      \<and> blocks db_10 10 = Some \<lparr>block_id = Some ''ABC'', proposer_address = Some ''P1'',
           num_transactions = Some 2, details = Some ''null'', created_at = Some 5,
           updated_at = Some 7, deleted_at = None\<rparr>"
    by (simp add: db_10_def row_10_def)
  have 2: "failure db_10 = None \<and> blocks db_10 10 = Some row_10"
    by (simp add: db_10_def)
  have 3: "failure db_null_details = None
      \<and> blocks db_null_details 10 = Some (row_10\<lparr>details := None\<rparr>)"
    by (simp add: db_null_details_def)
  note t = cache_hit_verbatim [where up = scenario_A and h = 10]
  from t [where db = db_10, THEN conjunct1, rule_format, OF 1]
    t [where db = db_10, THEN conjunct2, THEN conjunct1, rule_format, OF 2]
    t [where db = db_null_details, THEN conjunct2, THEN conjunct1, rule_format, OF 3]
  show ?thesis
    by simp
qed

text \<open>
  The claim as stated fails on a stored row with NULL in \<open>details\<close>: \<open>Scan\<close> cannot
  convert NULL into a \<open>json.RawMessage\<close>, and the accessor returns that error wrapped
  instead of the record.
\<close>

theorem null_details_is_error:
  "failure db_null_details = None
   \<and> blocks db_null_details 10 = Some (row_10\<lparr>details := None\<rparr>)
   \<and> GetBlockDetails db_null_details scenario_A 10 =
       (Return None (Some (Wrapf ''error fetching block details from database'' (ScanError 7))),
        [QueryRow 10])"
  by (simp add: db_null_details_def GetBlockDetails_def QueryRow_Scan_def Scan_def row_10_def)

subsection \<open>Cache miss and storage failure\<close>

text \<open>
  C3. When the lookup yields \<open>sql.ErrNoRows\<close>, what \<open>GetBlockDetails\<close> does after the
  lookup is one call of \<open>FetchAndStoreBlockDetails\<close> for the requested height: its trace
  is the lookup followed by the trace of that call, which enters the pipeline exactly
  once. When that call returns a record without error, the accessor returns that record,
  and its height is the requested one; when it returns an error, the accessor returns it
  wrapped. On well-formed answers of the node the call does return a record, so the
  accessor returns it after exactly two requests. When the lookup fails with any error
  other than \<open>sql.ErrNoRows\<close>, the error is returned wrapped and nothing but the lookup
  happened.
\<close>

theorem cache_miss_fetches_once:
  "(QueryRow_Scan db h = Inl ErrNoRows \<longrightarrow>
      GetBlockDetails db up h =
        (case fst (FetchAndStoreBlockDetails up h) of
           Panic p \<Rightarrow> Panic p
         | Return b (Some e) \<Rightarrow>
             Return None (Some (Wrapf ''error fetching and storing block details'' e))
         | Return b None \<Rightarrow> Return (Some b) None,
         QueryRow h # snd (FetchAndStoreBlockDetails up h))
      \<and> entered (snd (GetBlockDetails db up h)) = [h]
      \<and> (\<forall>r. fst (FetchAndStoreBlockDetails up h) = Return r None \<longrightarrow>
             fst (GetBlockDetails db up h) = Return (Some r) None \<and> Height r = h)
      \<and> (\<forall>r. fst (GetBlockDetails db up h) = Return (Some r) None \<longrightarrow> Height r = h))
   \<and> (QueryRow_Scan db h = Inl ErrNoRows
        \<and> up (RpcBlockResults h) = Response code body \<and> Decode body = Inr result
        \<and> index result ''result'' = JObject rr \<and> map_of rr ''txs_results'' = Some txs
        \<and> fst (getBlock up h) = Return bd None \<and> (txs = JNull \<or> txs = JArray xs) \<longrightarrow>
        GetBlockDetails db up h =
          (Return (Some (BlockDetails_zero\<lparr>Height := h, BlockID := BlockID bd,
                           Proposer := Proposer bd,
                           NumTransactions := (if txs = JNull then 0 else int (length xs))\<rparr>)) None,
           [QueryRow h, Enter_FetchAndStoreBlockDetails h, HttpGet (RpcBlockResults h),
            HttpGet (RpcBlock h),
            Go \<lparr>task_height = h,
                task_block = BlockDetails_zero\<lparr>Height := h, BlockID := BlockID bd,
                  Proposer := Proposer bd,
                  NumTransactions := (if txs = JNull then 0 else int (length xs))\<rparr>\<rparr>]))
   \<and> (QueryRow_Scan db h = Inl e \<and> e \<noteq> ErrNoRows \<longrightarrow>
        GetBlockDetails db up h =
          (Return None (Some (Wrapf ''error fetching block details from database'' e)),
           [QueryRow h]))"
proof (intro conjI impI)
  assume "QueryRow_Scan db h = Inl ErrNoRows"
  then have a: "failure db = None" "blocks db h = None"
    using GetBlockDetails_miss' by blast+
  show g: "GetBlockDetails db up h =
        (case fst (FetchAndStoreBlockDetails up h) of
           Panic p \<Rightarrow> Panic p
         | Return b (Some e) \<Rightarrow>
             Return None (Some (Wrapf ''error fetching and storing block details'' e))
         | Return b None \<Rightarrow> Return (Some b) None,
         QueryRow h # snd (FetchAndStoreBlockDetails up h))"
    by (simp add: GetBlockDetails_miss [OF a] split: outcome.splits option.splits)
  show "entered (snd (GetBlockDetails db up h)) = [h]"
    by (simp add: g FetchAndStore_entered)
  show "\<forall>r. fst (FetchAndStoreBlockDetails up h) = Return r None \<longrightarrow>
             fst (GetBlockDetails db up h) = Return (Some r) None \<and> Height r = h"
  proof (intro allI impI conjI)
    fix r assume f: "fst (FetchAndStoreBlockDetails up h) = Return r None"
    then show "fst (GetBlockDetails db up h) = Return (Some r) None"
      by (simp add: g)
    from f show "Height r = h"
      using FetchAndStore_ok getBlockResults_ok by blast
  qed
  show "\<forall>r. fst (GetBlockDetails db up h) = Return (Some r) None \<longrightarrow> Height r = h"
  proof (intro allI impI)
    fix r assume "fst (GetBlockDetails db up h) = Return (Some r) None"
    then have "fst (FetchAndStoreBlockDetails up h) = Return r None"
      by (simp add: g split: outcome.splits option.splits)
    then show "Height r = h"
      using FetchAndStore_ok getBlockResults_ok by blast
  qed
next
  assume a: "QueryRow_Scan db h = Inl ErrNoRows
        \<and> up (RpcBlockResults h) = Response code body \<and> Decode body = Inr result
        \<and> index result ''result'' = JObject rr \<and> map_of rr ''txs_results'' = Some txs
        \<and> fst (getBlock up h) = Return bd None \<and> (txs = JNull \<or> txs = JArray xs)"
  then have m: "failure db = None" "blocks db h = None"
    using GetBlockDetails_miss' by blast+
  from a have "FetchAndStoreBlockDetails up h =
           (Return (BlockDetails_zero\<lparr>Height := h, BlockID := BlockID bd, Proposer := Proposer bd,
                      NumTransactions := (if txs = JNull then 0 else int (length xs))\<rparr>) None,
            [Enter_FetchAndStoreBlockDetails h, HttpGet (RpcBlockResults h), HttpGet (RpcBlock h),
             Go \<lparr>task_height = h,
                 task_block = BlockDetails_zero\<lparr>Height := h, BlockID := BlockID bd,
                   Proposer := Proposer bd,
                   NumTransactions := (if txs = JNull then 0 else int (length xs))\<rparr>\<rparr>])"
    by (intro FetchAndStore_success [where code = code and body = body and result = result and rr = rr])
       simp_all
  then show "GetBlockDetails db up h =
          (Return (Some (BlockDetails_zero\<lparr>Height := h, BlockID := BlockID bd,
                           Proposer := Proposer bd,
                           NumTransactions := (if txs = JNull then 0 else int (length xs))\<rparr>)) None,
           [QueryRow h, Enter_FetchAndStoreBlockDetails h, HttpGet (RpcBlockResults h),
            HttpGet (RpcBlock h),
            Go \<lparr>task_height = h,
                task_block = BlockDetails_zero\<lparr>Height := h, BlockID := BlockID bd,
                  Proposer := Proposer bd,
                  NumTransactions := (if txs = JNull then 0 else int (length xs))\<rparr>\<rparr>])"
    by (simp add: GetBlockDetails_miss [OF m])
next
  assume "QueryRow_Scan db h = Inl e \<and> e \<noteq> ErrNoRows"
  then show "GetBlockDetails db up h =
          (Return None (Some (Wrapf ''error fetching block details from database'' e)),
           [QueryRow h])"
    by (simp add: GetBlockDetails_def)
qed

theorem cache_miss_fetches_once_witness:
  "GetBlockDetails empty_db scenario_A 10 =
     (Return (Some (BlockDetails_zero\<lparr>Height := 10, BlockID := ''ABC'', Proposer := ''P1'',
                      NumTransactions := 2\<rparr>)) None,
      [QueryRow 10, Enter_FetchAndStoreBlockDetails 10, HttpGet (RpcBlockResults 10),
       HttpGet (RpcBlock 10),
       Go \<lparr>task_height = 10,
           task_block = BlockDetails_zero\<lparr>Height := 10, BlockID := ''ABC'', Proposer := ''P1'',
                          NumTransactions := 2\<rparr>\<rparr>])
   \<and> entered (snd (GetBlockDetails empty_db scenario_A 10)) = [10]
   \<and> fst (GetBlockDetails empty_db scenario_B 15) =
       Return None (Some (Wrapf ''error fetching and storing block details''
         (Wrapf ''error getting block details''
            (Wrapf ''error decoding block results'' JsonSyntaxError))))
   \<and> entered (snd (GetBlockDetails empty_db scenario_B 15)) = [15]
   \<and> GetBlockDetails db_down scenario_A 10 =
       (Return None (Some (Wrapf ''error fetching block details from database''
          (SqlError ''connection refused''))), [QueryRow 10])
   \<and> GetBlockDetails db_null_details scenario_A 10 =
       (Return None (Some (Wrapf ''error fetching block details from database'' (ScanError 7))),
        [QueryRow 10])"
proof -
  have miss: "QueryRow_Scan empty_db h = Inl ErrNoRows" for h
    by (simp add: QueryRow_Scan_def empty_db_def)
  have down: "QueryRow_Scan db_down 10 = Inl (SqlError ''connection refused'')
                \<and> SqlError ''connection refused'' \<noteq> ErrNoRows"
    by (simp add: QueryRow_Scan_def db_down_def)
  have null: "QueryRow_Scan db_null_details 10 = Inl (ScanError 7) \<and> ScanError 7 \<noteq> ErrNoRows"
    by (simp add: QueryRow_Scan_def db_null_details_def Scan_def row_10_def)
  have ok: "QueryRow_Scan empty_db 10 = Inl ErrNoRows
        \<and> scenario_A (RpcBlockResults 10) =
            Response 200 (Some (JObject [(''result'', JObject [(''txs_results'', JArray [JNull, JNull])])]))
        \<and> Decode (Some (JObject [(''result'', JObject [(''txs_results'', JArray [JNull, JNull])])]))
            = Inr [(''result'', JObject [(''txs_results'', JArray [JNull, JNull])])]
        \<and> index [(''result'', JObject [(''txs_results'', JArray [JNull, JNull])])] ''result''
            = JObject [(''txs_results'', JArray [JNull, JNull])]
        \<and> map_of [(''txs_results'', JArray [JNull, JNull])] ''txs_results'' = Some (JArray [JNull, JNull])
        \<and> fst (getBlock scenario_A 10) =
            Return (BlockDetails_zero\<lparr>BlockID := ''ABC'', Proposer := ''P1''\<rparr>) None
        \<and> (JArray [JNull, JNull] = JNull \<or> JArray [JNull, JNull] = JArray [JNull, JNull])"
    by (simp add: miss scenario_A_getBlock) (simp add: scenario_A_def Decode_def index_def)
  note a = cache_miss_fetches_once [where db = empty_db and up = scenario_A and h = 10,
      THEN conjunct2, THEN conjunct1, rule_format, OF ok]
  note a1 = cache_miss_fetches_once [where db = empty_db and up = scenario_A and h = 10,
      THEN conjunct1, rule_format, OF miss]
  note b = cache_miss_fetches_once [where db = empty_db and up = scenario_B and h = 15,
      THEN conjunct1, rule_format, OF miss]
  note d = cache_miss_fetches_once [where db = db_down and up = scenario_A and h = 10,
      THEN conjunct2, THEN conjunct2, rule_format, OF down]
  note n = cache_miss_fetches_once [where db = db_null_details and up = scenario_A and h = 10,
      THEN conjunct2, THEN conjunct2, rule_format, OF null]
  have b': "fst (GetBlockDetails empty_db scenario_B 15) =
       Return None (Some (Wrapf ''error fetching and storing block details''
         (Wrapf ''error getting block details''
            (Wrapf ''error decoding block results'' JsonSyntaxError))))"
    using b [THEN conjunct1] by (simp add: scenario_B_fetch)
  from a a1 [THEN conjunct2, THEN conjunct1] b' b [THEN conjunct2, THEN conjunct1] d n
  show ?thesis
    by simp
qed

subsection \<open>Transaction count\<close>

text \<open>
  C9. When \<open>/block_results\<close> answers with a \<open>result\<close> object whose \<open>txs_results\<close> is a list
  or null, and \<open>getBlock\<close> succeeds, the pipeline returns a record whose transaction count
  is the length of the list, or 0 for null; the count is not negative; the goroutine it
  starts carries the same record, and the row that goroutine stores has the same count in
  \<open>num_transactions\<close>.
\<close>

theorem transaction_count:
  assumes "up (RpcBlockResults h) = Response code body" and "Decode body = Inr result"
    and "index result ''result'' = JObject rr" and "map_of rr ''txs_results'' = Some txs"
    and "fst (getBlock up h) = Return bd None"
    and "txs = JNull \<or> txs = JArray xs"
  shows "\<exists>r. FetchAndStoreBlockDetails up h =
             (Return r None,
              [Enter_FetchAndStoreBlockDetails h, HttpGet (RpcBlockResults h), HttpGet (RpcBlock h),
               Go \<lparr>task_height = h, task_block = r\<rparr>])
           \<and> NumTransactions r = (if txs = JNull then 0 else int (length xs))
           \<and> 0 \<le> NumTransactions r
           \<and> (failure db = None \<and> length xs < 2 ^ 31 \<longrightarrow>
                map_option num_transactions
                  (blocks (fst (persist enc \<lparr>task_height = h, task_block = r\<rparr> t db)) h)
                  = Some (Some (NumTransactions r)))"
proof -
  let ?n = "if txs = JNull then 0 else int (length xs)"
  let ?r = "BlockDetails_zero\<lparr>Height := h, BlockID := BlockID bd, Proposer := Proposer bd,
              NumTransactions := ?n\<rparr>"
  have c: "count_txs txs = Inr ?n"
    using assms(6) by (auto simp: count_txs_def)
  have tr: "snd (getBlock up h) = [HttpGet (RpcBlock h)]"
    by (rule getBlock_trace)
  have "getBlockResults up h = (Return ?r None, [HttpGet (RpcBlockResults h), HttpGet (RpcBlock h)])"
    using assms(1-5) tr c by (cases "getBlock up h") (simp add: getBlockResults_def)
  then have 1: "FetchAndStoreBlockDetails up h =
             (Return ?r None,
              [Enter_FetchAndStoreBlockDetails h, HttpGet (RpcBlockResults h), HttpGet (RpcBlock h),
               Go \<lparr>task_height = h, task_block = ?r\<rparr>])"
    by (simp add: FetchAndStoreBlockDetails_def)
  have 2: "NumTransactions ?r = ?n" "0 \<le> NumTransactions ?r"
    by simp_all
  have 3: "failure db = None \<and> length xs < 2 ^ 31 \<longrightarrow>
                map_option num_transactions
                  (blocks (fst (persist enc \<lparr>task_height = h, task_block = ?r\<rparr> t db)) h)
                  = Some (Some (NumTransactions ?r))"
  proof
    assume a: "failure db = None \<and> length xs < 2 ^ 31"
    then have "int (length xs) < 2 ^ 31"
      by (metis of_nat_less_iff of_nat_numeral of_nat_power)
    then have "persist enc \<lparr>task_height = h, task_block = ?r\<rparr> t db =
           (db\<lparr>blocks := upsert (blocks db) h (BlockID ?r) (Proposer ?r) ?n ''null'' t t\<rparr>, [])"
      using a by (subst persist_nil_details) (simp_all add: BlockDetails_zero_def)
    then show "map_option num_transactions
                  (blocks (fst (persist enc \<lparr>task_height = h, task_block = ?r\<rparr> t db)) h)
                  = Some (Some (NumTransactions ?r))"
      by (simp add: upsert_def split: option.splits)
  qed
  from 1 2 3 show ?thesis by blast
qed

theorem transaction_count_witness:
  "\<exists>r. FetchAndStoreBlockDetails scenario_A 10 =
         (Return r None,
          [Enter_FetchAndStoreBlockDetails 10, HttpGet (RpcBlockResults 10), HttpGet (RpcBlock 10),
           Go \<lparr>task_height = 10, task_block = r\<rparr>])
       \<and> NumTransactions r = 2
       \<and> map_option num_transactions
            (blocks (fst (persist Inr \<lparr>task_height = 10, task_block = r\<rparr> 7 empty_db)) 10)
           = Some (Some 2)"
proof -
  let ?rr = "[(''txs_results'', JArray [JNull, JNull])]"
  let ?result = "[(''result'', JObject ?rr)]"
  have 1: "scenario_A (RpcBlockResults 10) = Response 200 (Some (JObject ?result))"
    by (simp add: scenario_A_def)
  have 2: "Decode (Some (JObject ?result)) = Inr ?result"
    by (simp add: Decode_def)
  have 3: "index ?result ''result'' = JObject ?rr"
    by (simp add: index_def)
  have 4: "map_of ?rr ''txs_results'' = Some (JArray [JNull, JNull])"
    by simp
  have 5: "fst (getBlock scenario_A 10) =
             Return (BlockDetails_zero\<lparr>BlockID := ''ABC'', Proposer := ''P1''\<rparr>) None"
    by (simp add: scenario_A_getBlock)
  have 6: "JArray [JNull, JNull] = JNull \<or> JArray [JNull, JNull] = JArray [JNull, JNull]"
    by simp
  have 7: "failure empty_db = None \<and> length [JNull, JNull] < 2 ^ 31"
    by (simp add: empty_db_def)
  from transaction_count [OF 1 2 3 4 5 6, where db = empty_db and enc = Inr and t = 7] 7
  show ?thesis
    by auto
qed

subsection \<open>What a cache miss returns\<close>

text \<open>
  C10. The record that \<open>GetBlockDetails\<close> returns on a successful miss is the zero record
  with only height, block id, proposer and transaction count set: both timestamps are
  the zero time, \<open>DeletedAt\<close> is not valid and \<open>Details\<close> is nil. The goroutine started
  for it carries that same record; the instant it later reads from the clock goes into
  the table only, where the next lookup of the height finds it.
\<close>

theorem miss_returns_zero_timestamps:
  assumes miss: "QueryRow_Scan db h = Inl ErrNoRows"
    and ret: "fst (GetBlockDetails db up h) = Return (Some r) None"
  shows "CreatedAt r = 0 \<and> UpdatedAt r = 0 \<and> DeletedAt r = \<lparr>Time = 0, Valid = False\<rparr>
         \<and> Details r = None
         \<and> r = BlockDetails_zero\<lparr>Height := h, BlockID := BlockID r, Proposer := Proposer r,
                  NumTransactions := NumTransactions r\<rparr>
         \<and> started (snd (GetBlockDetails db up h)) = [\<lparr>task_height = h, task_block = r\<rparr>]
         \<and> (NumTransactions r < 2 ^ 31 \<longrightarrow>
              fst (GetBlockDetails (run_goroutines enc [(\<lparr>task_height = h, task_block = r\<rparr>, t)] db) up' h)
                = Return (Some (r\<lparr>CreatedAt := t, UpdatedAt := t, Details := Some ''null''\<rparr>)) None)"
proof -
  from miss have db: "failure db = None" "blocks db h = None"
    using GetBlockDetails_miss' by blast+
  with ret have f: "fst (FetchAndStoreBlockDetails up h) = Return r None"
    by (simp add: GetBlockDetails_miss split: outcome.splits option.splits)
  then have g: "fst (getBlockResults up h) = Return r None"
    by (rule FetchAndStore_ok)
  note z = getBlockResults_ok [OF g]
  have 1: "CreatedAt r = 0" "UpdatedAt r = 0" "DeletedAt r = \<lparr>Time = 0, Valid = False\<rparr>"
    "Details r = None"
    using z by (simp_all add: NullTime_zero_def)
  have 2: "r = BlockDetails_zero\<lparr>Height := h, BlockID := BlockID r, Proposer := Proposer r,
                  NumTransactions := NumTransactions r\<rparr>"
    using z by (simp add: BlockDetails_zero_def)
  have 3: "started (snd (GetBlockDetails db up h)) = [\<lparr>task_height = h, task_block = r\<rparr>]"
    using db f by (simp add: GetBlockDetails_miss FetchAndStore_started)
  have 4: "NumTransactions r < 2 ^ 31 \<longrightarrow>
              fst (GetBlockDetails (run_goroutines enc [(\<lparr>task_height = h, task_block = r\<rparr>, t)] db) up' h)
                = Return (Some (r\<lparr>CreatedAt := t, UpdatedAt := t, Details := Some ''null''\<rparr>)) None"
  proof
    assume n: "NumTransactions r < 2 ^ 31"
    have "persist enc \<lparr>task_height = h, task_block = r\<rparr> t db =
            (db\<lparr>blocks := upsert (blocks db) h (BlockID r) (Proposer r) (NumTransactions r)
                    ''null'' t t\<rparr>, [])"
      using db z n by (subst persist_nil_details) simp_all
    moreover have "upsert (blocks db) h (BlockID r) (Proposer r) (NumTransactions r) ''null'' t t h
        = Some \<lparr>block_id = Some (BlockID r), proposer_address = Some (Proposer r),
                num_transactions = Some (NumTransactions r), details = Some ''null'',
                created_at = Some t, updated_at = Some t, deleted_at = None\<rparr>"
      using db(2) by (simp add: upsert_absent)
    moreover have "\<lparr>Height = h, BlockID = BlockID r, NumTransactions = NumTransactions r,
          Proposer = Proposer r, CreatedAt = t, UpdatedAt = t, DeletedAt = NullTime_zero,
          Details = Some ''null''\<rparr> = r\<lparr>CreatedAt := t, UpdatedAt := t, Details := Some ''null''\<rparr>"
      using z by (cases r) simp
    ultimately show "fst (GetBlockDetails (run_goroutines enc [(\<lparr>task_height = h, task_block = r\<rparr>, t)] db) up' h)
                = Return (Some (r\<lparr>CreatedAt := t, UpdatedAt := t, Details := Some ''null''\<rparr>)) None"
      using db(1) by (simp add: GetBlockDetails_def QueryRow_Scan_def Scan_def)
  qed
  show ?thesis
    by (intro conjI) (rule 1 2 3 4)+
qed

theorem miss_returns_zero_timestamps_witness:
  "CreatedAt (task_block task_10) = 0 \<and> UpdatedAt (task_block task_10) = 0
   \<and> Details (task_block task_10) = None
   \<and> started (snd (GetBlockDetails empty_db scenario_A 10)) = [task_10]
   \<and> fst (GetBlockDetails (run_goroutines Inr [(task_10, 7)] empty_db) scenario_A 10)
       = Return (Some ((task_block task_10)\<lparr>CreatedAt := 7, UpdatedAt := 7, Details := Some ''null''\<rparr>)) None"
proof -
  have miss: "QueryRow_Scan empty_db 10 = Inl ErrNoRows"
    by (simp add: QueryRow_Scan_def empty_db_def)
  have ret: "fst (GetBlockDetails empty_db scenario_A 10) = Return (Some (task_block task_10)) None"
    by (simp add: GetBlockDetails_def miss scenario_A_fetch task_10_def)
  have n: "NumTransactions (task_block task_10) < 2 ^ 31"
    by (simp add: task_10_def)
  have t: "\<lparr>task_height = 10, task_block = task_block task_10\<rparr> = task_10"
    by (simp add: task_10_def)
  from miss_returns_zero_timestamps [OF miss ret, where enc = Inr and t = 7 and up' = scenario_A] n t
  show ?thesis
    by simp
qed

subsection \<open>The upsert\<close>

text \<open>
  C4, as amended. The statement inserts a row when the height has none, and otherwise
  replaces block id, proposer, transaction count, details and the updated timestamp of
  the row, keeping its created timestamp (and \<open>deleted_at\<close>); rows of other heights are
  untouched. When the pipeline has run twice for a height and the two goroutines reach
  the gateway in the order in which they read the clock (\<open>t1 \<le> t2\<close>), the created
  timestamp after the second write is the one after the first and the updated timestamp
  does not decrease. More generally a write, failed or not, at an instant not before the
  updated timestamp of the row keeps the created timestamp and does not decrease the
  updated one.
\<close>

theorem upsert_keeps_created:
  "(t h = None \<longrightarrow>
      upsert t h b p n d c u h =
        Some \<lparr>block_id = Some b, proposer_address = Some p, num_transactions = Some n,
              details = Some d, created_at = Some c, updated_at = Some u, deleted_at = None\<rparr>)
   \<and> (t h = Some r \<longrightarrow>
      upsert t h b p n d c u h =
        Some (r\<lparr>block_id := Some b, proposer_address := Some p, num_transactions := Some n,
                 details := Some d, updated_at := Some u\<rparr>))
   \<and> (h' \<noteq> h \<longrightarrow> upsert t h b p n d c u h' = t h')
   \<and> (fst (FetchAndStoreBlockDetails up1 h) = Return b1 None
      \<and> fst (FetchAndStoreBlockDetails up2 h) = Return b2 None
      \<and> failure db = None \<and> NumTransactions b1 < 2 ^ 31 \<and> NumTransactions b2 < 2 ^ 31
      \<and> t1 \<le> t2 \<longrightarrow>
      (\<exists>r1 r2.
         blocks (run_goroutines enc (zip (started (snd (FetchAndStoreBlockDetails up1 h))) [t1]) db) h
           = Some r1
         \<and> blocks (run_goroutines enc (zip (started (snd (FetchAndStoreBlockDetails up2 h))) [t2])
               (run_goroutines enc (zip (started (snd (FetchAndStoreBlockDetails up1 h))) [t1]) db)) h
           = Some r2
         \<and> created_at r2 = created_at r1 \<and> updated_at r1 = Some t1 \<and> updated_at r2 = Some t2
         \<and> the (updated_at r1) \<le> the (updated_at r2)
         \<and> block_id r2 = Some (BlockID b2) \<and> proposer_address r2 = Some (Proposer b2)
         \<and> num_transactions r2 = Some (NumTransactions b2)))
   \<and> (blocks db h = Some r1 \<and> task_height task = h
      \<and> (\<forall>u1. updated_at r1 = Some u1 \<longrightarrow> u1 \<le> t2) \<longrightarrow>
      (\<exists>r2. blocks (fst (persist enc task t2 db)) h = Some r2
            \<and> created_at r2 = created_at r1
            \<and> (\<forall>u1. updated_at r1 = Some u1 \<longrightarrow> (\<exists>u2. updated_at r2 = Some u2 \<and> u1 \<le> u2))))"
proof (intro conjI impI)
  assume "t h = None"
  then show "upsert t h b p n d c u h =
        Some \<lparr>block_id = Some b, proposer_address = Some p, num_transactions = Some n,
              details = Some d, created_at = Some c, updated_at = Some u, deleted_at = None\<rparr>"
    by (simp add: upsert_absent)
next
  assume "t h = Some r"
  then show "upsert t h b p n d c u h =
        Some (r\<lparr>block_id := Some b, proposer_address := Some p, num_transactions := Some n,
                 details := Some d, updated_at := Some u\<rparr>)"
    by (simp add: upsert_present)
next
  assume "h' \<noteq> h"
  then show "upsert t h b p n d c u h' = t h'"
    by (simp add: upsert_def split: option.splits)
next
  assume a: "fst (FetchAndStoreBlockDetails up1 h) = Return b1 None
      \<and> fst (FetchAndStoreBlockDetails up2 h) = Return b2 None
      \<and> failure db = None \<and> NumTransactions b1 < 2 ^ 31 \<and> NumTransactions b2 < 2 ^ 31
      \<and> t1 \<le> t2"
  let ?db1 = "db\<lparr>blocks := upsert (blocks db) h (BlockID b1) (Proposer b1) (NumTransactions b1) ''null'' t1 t1\<rparr>"
  let ?db2 = "?db1\<lparr>blocks := upsert (blocks ?db1) h (BlockID b2) (Proposer b2) (NumTransactions b2) ''null'' t2 t2\<rparr>"
  have 1: "run_goroutines enc (zip (started (snd (FetchAndStoreBlockDetails up1 h))) [t1]) db = ?db1"
    using a by (intro persist_fetched) simp_all
  have 2: "run_goroutines enc (zip (started (snd (FetchAndStoreBlockDetails up2 h))) [t2]) ?db1 = ?db2"
    using a by (intro persist_fetched) simp_all
  obtain r1 where r1: "blocks ?db1 h = Some r1" "updated_at r1 = Some t1"
    by (cases "blocks db h") (simp_all add: upsert_def)
  then have "blocks ?db2 h = Some (r1\<lparr>block_id := Some (BlockID b2),
      proposer_address := Some (Proposer b2), num_transactions := Some (NumTransactions b2),
      details := Some ''null'', updated_at := Some t2\<rparr>)"
    by (simp add: upsert_present)
  with r1 a show "\<exists>r1 r2.
         blocks (run_goroutines enc (zip (started (snd (FetchAndStoreBlockDetails up1 h))) [t1]) db) h
           = Some r1
         \<and> blocks (run_goroutines enc (zip (started (snd (FetchAndStoreBlockDetails up2 h))) [t2])
               (run_goroutines enc (zip (started (snd (FetchAndStoreBlockDetails up1 h))) [t1]) db)) h
           = Some r2
         \<and> created_at r2 = created_at r1 \<and> updated_at r1 = Some t1 \<and> updated_at r2 = Some t2
         \<and> the (updated_at r1) \<le> the (updated_at r2)
         \<and> block_id r2 = Some (BlockID b2) \<and> proposer_address r2 = Some (Proposer b2)
         \<and> num_transactions r2 = Some (NumTransactions b2)"
    unfolding 1 2 by simp
next
  assume a: "blocks db h = Some r1 \<and> task_height task = h
      \<and> (\<forall>u1. updated_at r1 = Some u1 \<longrightarrow> u1 \<le> t2)"
  with persist_row [of db task r1 enc t2] obtain r2
    where r2: "blocks (fst (persist enc task t2 db)) h = Some r2"
      "created_at r2 = created_at r1"
      "updated_at r2 = updated_at r1 \<or> updated_at r2 = Some t2"
    by auto
  have "\<forall>u1. updated_at r1 = Some u1 \<longrightarrow> (\<exists>u2. updated_at r2 = Some u2 \<and> u1 \<le> u2)"
    using a r2(3) by auto
  with r2 show "\<exists>r2. blocks (fst (persist enc task t2 db)) h = Some r2
            \<and> created_at r2 = created_at r1
            \<and> (\<forall>u1. updated_at r1 = Some u1 \<longrightarrow> (\<exists>u2. updated_at r2 = Some u2 \<and> u1 \<le> u2))"
    by blast
qed

theorem upsert_keeps_created_witness:
  "\<exists>r1 r2.
      blocks (run_goroutines Inr [(task_10, 5)] empty_db) 10 = Some r1
      \<and> blocks (run_goroutines Inr [(task_10, 7)] (run_goroutines Inr [(task_10, 5)] empty_db)) 10 = Some r2
      \<and> created_at r2 = created_at r1 \<and> updated_at r1 = Some 5 \<and> updated_at r2 = Some 7"
proof -
  have f: "fst (FetchAndStoreBlockDetails scenario_A 10) = Return (task_block task_10) None"
    by (simp add: scenario_A_fetch task_10_def)
  have h: "fst (FetchAndStoreBlockDetails scenario_A 10) = Return (task_block task_10) None
      \<and> fst (FetchAndStoreBlockDetails scenario_A 10) = Return (task_block task_10) None
      \<and> failure empty_db = None \<and> NumTransactions (task_block task_10) < 2 ^ 31
      \<and> NumTransactions (task_block task_10) < 2 ^ 31 \<and> (5 :: time) \<le> 7"
    by (simp add: f) (simp add: task_10_def empty_db_def)
  from upsert_keeps_created [where ?up1.0 = scenario_A and ?up2.0 = scenario_A and h = 10 and db = empty_db
        and ?b1.0 = "task_block task_10" and ?b2.0 = "task_block task_10" and ?t1.0 = 5 and ?t2.0 = 7
        and enc = Inr, THEN conjunct2, THEN conjunct2, THEN conjunct2, THEN conjunct1,
        rule_format, OF h]
  show ?thesis
    by (simp add: task_10_started) blast
qed

text \<open>
  The claim as stated fails when the goroutine of the first run is overtaken: it read
  the clock at 5, the goroutine of the second run read it at 7 and reached the gateway
  first. The updated timestamp of the row goes from 7 back to 5.
\<close>

theorem updated_at_overtaken:
  "started (snd (FetchAndStoreBlockDetails scenario_A 10)) = [task_10]
   \<and> map_option updated_at (blocks (run_goroutines Inr [(task_10, 7)] empty_db) 10) = Some (Some 7)
   \<and> map_option updated_at (blocks (run_goroutines Inr [(task_10, 7), (task_10, 5)] empty_db) 10)
       = Some (Some 5)
   \<and> \<not> (7 :: time) \<le> 5"
  by (simp add: task_10_started)
     (simp add: task_10_def empty_db_def persist_def Marshal_def ExecContext_def upsert_def
       BlockDetails_zero_def)

section \<open>Properties of the Height Resolver and the scan bound\<close>

text \<open>
  C8. \<open>GetLatestBlockHeight\<close> does not look at the status code: a response with status
  500 whose body has the expected shape yields the height without error, and one with
  the JSON-RPC error body panics in the single-value type assertion on \<open>result\<close>.
  \<open>GetLatestBlockHeightFromREST\<close> returns an error on both.
\<close>

theorem GetLatestBlockHeight_ignores_status:
  "GetLatestBlockHeight status_500 = Return 42 None
   \<and> GetLatestBlockHeight rpc_error
       = Panic ''interface conversion: interface {} is not map[string]interface {}''
   \<and> GetLatestBlockHeightFromREST status_500
       = Return 0 (Some (Errorf ''REST API request failed with status code''))
   \<and> GetLatestBlockHeightFromREST rpc_error
       = Return 0 (Some (Errorf ''REST API request failed with status code''))"
  by (simp add: GetLatestBlockHeight_def GetLatestBlockHeightFromREST_def status_500_def
      rpc_error_def Decode_def index_def StatusOK_def ParseInt_42)

text \<open>
  C7. When the resolver returns the tip \<open>T\<close> without error, the upper bound of the scan
  is \<open>T\<close> if \<open>T\<close> is greater than the ceiling \<open>C\<close> and \<open>C\<close> otherwise, which is the maximum
  of the two as signed integers; the loop starts at that height. The merge in \<open>main\<close>
  against the constant ceiling is the same.
\<close>

theorem tip_merge_law:
  assumes "GetLatestBlockHeightFromREST up = Return T None"
  shows "StartIndexing_maxBlockHeight up C = Some (if sint C < sint T then T else C)
         \<and> sint (if sint C < sint T then T else C) = max (sint C) (sint T)
         \<and> StartIndexing up lo C [] = Some (loop_entry (if sint C < sint T then T else C))
         \<and> main_maxBlockHeight up = Some (if 11553690 < sint T then T else 11553690)"
  using assms
  by (simp add: StartIndexing_maxBlockHeight_def StartIndexing_def main_maxBlockHeight_def
      word_sless_alt max_def)

theorem tip_merge_law_witness:
  "StartIndexing_maxBlockHeight (tip_node ''12000000'') 11553690 = Some 12000000
   \<and> StartIndexing_maxBlockHeight (tip_node ''12000000'') 12000001 = Some 12000001
   \<and> main_maxBlockHeight (tip_node ''12000000'') = Some 12000000"
  using tip_merge_law [OF tip_node_12000000, of 11553690] tip_merge_law [OF tip_node_12000000, of 12000001]
  by simp

section \<open>Properties of the Backfill Scanner\<close>

subsection \<open>The admission gate\<close>

lemma length_filter_update:
  "i < length xs \<Longrightarrow>
     length (filter P (xs[i := y])) + (if P (xs ! i) then 1 else 0)
       = length (filter P xs) + (if P y then 1 else 0)"
proof (induction xs arbitrary: i)
  case Nil
  then show ?case by simp
next
  case (Cons x xs)
  then show ?case
    by (cases i) auto
qed

lemma active_update:
  "i < length (units s) \<Longrightarrow>
     active (s\<lparr>units := (units s)[i := u]\<rparr>) + (if holds_slot (units s ! i) then 1 else 0)
       = active s + (if holds_slot u then 1 else 0)"
  using length_filter_update [of i "units s" holds_slot u] by (simp add: active_def)

lemma active_simps [simp]:
  "active (s\<lparr>pc := p\<rparr>) = active s"
  "active (s\<lparr>wg := w\<rparr>) = active s"
  "active (s\<lparr>semaphore := n\<rparr>) = active s"
  "active (s\<lparr>trace := tr\<rparr>) = active s"
  "active (s\<lparr>crashed := c\<rparr>) = active s"
  "active (s\<lparr>currentHeight := h\<rparr>) = active s"
  by (simp_all add: active_def)

lemma main_step_gate:
  assumes "gate_inv s" and "main_step lo s = Some s'"
  shows "gate_inv s'"
  using assms
  by (cases "pc s")
     (auto simp: main_step_def gate_inv_def active_def holds_slot_def split: if_splits)

lemma unit_step_gate:
  assumes "gate_inv s" and "unit_step up i s = Some s'"
  shows "gate_inv s'"
proof -
  from assms(2) have i: "i < length (units s)"
    by (simp add: unit_step_def split: if_splits)
  obtain h ph where u: "units s ! i = (h, ph)"
    by (cases "units s ! i")
  show ?thesis
  proof (cases ph)
    case Fetching
    obtain r tr where f: "FetchAndStoreBlockDetails up h = (r, tr)"
      by (cases "FetchAndStoreBlockDetails up h")
    show ?thesis
    proof (cases r)
      case (Return b err)
      with assms i u Fetching f active_update [OF i, of "(h, Deferred_Release)"]
      show ?thesis
        by (auto simp: unit_step_def gate_inv_def holds_slot_def)
    next
      case (Panic p)
      with assms i u Fetching f show ?thesis
        by (auto simp: unit_step_def gate_inv_def)
    qed
  next
    case Deferred_Release
    with assms i u active_update [OF i, of "(h, Deferred_Done)"] show ?thesis
      by (auto simp: unit_step_def gate_inv_def holds_slot_def split: if_splits)
  next
    case Deferred_Done
    with assms i u active_update [OF i, of "(h, Exited)"] show ?thesis
      by (auto simp: unit_step_def gate_inv_def holds_slot_def split: if_splits)
  next
    case Exited
    with assms i u show ?thesis
      by (simp add: unit_step_def)
  qed
qed

lemma step_gate: "gate_inv s \<Longrightarrow> step up lo a s = Some s' \<Longrightarrow> gate_inv s'"
  by (cases a) (auto simp: step_def split: if_splits intro: main_step_gate unit_step_gate)

lemma run_gate: "gate_inv s \<Longrightarrow> run up lo sch s = Some s' \<Longrightarrow> gate_inv s'"
proof (induction sch arbitrary: s)
  case Nil
  then show ?case by simp
next
  case (Cons a sch)
  then show ?case
    by (auto split: option.splits dest: step_gate)
qed

lemma loop_entry_gate: "gate_inv (loop_entry m)"
  by (simp add: gate_inv_def loop_entry_def active_def)

lemma StartIndexing_gate: "StartIndexing up lo hi sch = Some s \<Longrightarrow> gate_inv s"
  by (auto simp: StartIndexing_def split: option.splits intro: run_gate loop_entry_gate)

lemma run_append:
  "run up lo (xs @ ys) s = (case run up lo xs s of None \<Rightarrow> None | Some s' \<Rightarrow> run up lo ys s')"
  by (induction xs arbitrary: s) (simp_all split: option.splits)

lemma iterations_Suc: "iterations (Suc n) = iterations n @ [Main, Main, Main, Main]"
proof -
  have "replicate (Suc n) [Main, Main, Main, Main]
          = replicate n [Main, Main, Main, Main] @ [[Main, Main, Main, Main]]"
    by (simp add: replicate_append_same)
  then show ?thesis
    by (simp add: iterations_def del: replicate_Suc)
qed

subsection \<open>Heights and signed arithmetic\<close>

lemma sint_sub_nat:
  fixes m :: int64
  assumes "- (2 ^ 63) \<le> sint m - int k"
  shows "sint (m - of_nat k) = sint m - int k"
proof -
  have "m - of_nat k = word_of_int (sint m - int k)"
    by simp
  moreover have "sint m - int k < 2 ^ 63"
    using sint_lt [of m] by simp
  ultimately show ?thesis
    using assms by (simp only: sint_sbintrunc') (simp add: signed_take_bit_int_eq_self)
qed

lemma sint_bounds64:
  fixes m :: int64
  shows "- (2 ^ 63) \<le> sint m" and "sint m < 2 ^ 63"
  using sint_ge [of m] sint_lt [of m] by simp_all

lemma descending_nth:
  "j < length (descending m lo) \<Longrightarrow> descending m lo ! j = m - of_nat j"
  by (simp add: descending_def)

lemma length_descending: "length (descending m lo) = nat (sint m - sint lo + 1)"
  by (simp add: descending_def)

lemma sint_descending:
  fixes m lo :: int64
  assumes "- (2 ^ 63) < sint lo" and "j < nat (sint m - sint lo + 1)"
  shows "sint (m - of_nat j) = sint m - int j"
proof (rule sint_sub_nat)
  show "- (2 ^ 63) \<le> sint m - int j"
    using assms by linarith
qed

lemma distinct_descending:
  assumes "- (2 ^ 63) < sint lo"
  shows "distinct (descending m lo)"
proof -
  have "inj_on (\<lambda>k. m - of_nat k) (set [0 ..< nat (sint m - sint lo + 1)])"
  proof (rule inj_onI)
    fix x y
    assume x: "x \<in> set [0 ..< nat (sint m - sint lo + 1)]"
      and y: "y \<in> set [0 ..< nat (sint m - sint lo + 1)]"
      and e: "m - of_nat x = m - of_nat y"
    from x have "x < nat (sint m - sint lo + 1)" by simp
    then have 1: "sint (m - of_nat x) = sint m - int x"
      by (rule sint_descending [OF assms])
    from y have "y < nat (sint m - sint lo + 1)" by simp
    then have 2: "sint (m - of_nat y) = sint m - int y"
      by (rule sint_descending [OF assms])
    from 1 2 e have "sint m - int x = sint m - int y"
      by (simp only:)
    then show "x = y" by simp
  qed
  then show ?thesis
    by (simp add: descending_def distinct_map)
qed

lemma set_descending:
  assumes "- (2 ^ 63) < sint lo"
  shows "set (descending m lo) = {h. lo \<le>s h \<and> h \<le>s m}"
proof (intro set_eqI iffI)
  fix h
  assume "h \<in> set (descending m lo)"
  then obtain j where j: "j < nat (sint m - sint lo + 1)" and h: "h = m - of_nat j"
    by (auto simp: descending_def)
  from sint_descending [OF assms j] h have "sint h = sint m - int j"
    by simp
  with j show "h \<in> {h. lo \<le>s h \<and> h \<le>s m}"
    by (simp add: word_sle_eq)
next
  fix h
  assume "h \<in> {h. lo \<le>s h \<and> h \<le>s m}"
  then have r: "sint lo \<le> sint h" "sint h \<le> sint m"
    by (simp_all add: word_sle_eq)
  let ?j = "nat (sint m - sint h)"
  have j: "?j < nat (sint m - sint lo + 1)"
    using r by linarith
  from sint_descending [OF assms j] r have "sint (m - of_nat ?j) = sint h"
    by simp
  then have "m - of_nat ?j = h"
    by (rule signed_word_eqI)
  moreover from j have "?j \<in> set [0 ..< nat (sint m - sint lo + 1)]"
    by simp
  ultimately show "h \<in> set (descending m lo)"
    unfolding descending_def set_map by (rule image_eqI [OF sym])
qed

lemma descending_take:
  "k \<le> nat (sint m - sint lo + 1) \<Longrightarrow>
     map (\<lambda>j. m - of_nat j) [0 ..< k] = take k (descending m lo)"
  by (simp add: descending_def take_map)

lemma descending_sorted:
  fixes m lo :: int64
  assumes "- (2 ^ 63) < sint lo"
  shows "sorted_wrt (\<lambda>a b. b <s a) (descending m lo)"
proof -
  have "sint (descending m lo ! j) < sint (descending m lo ! i)"
    if "i < j" and "j < length (descending m lo)" for i j
  proof -
    from that have i: "i < nat (sint m - sint lo + 1)" and j: "j < nat (sint m - sint lo + 1)"
      by (simp_all add: length_descending)
    from sint_descending [OF assms i] sint_descending [OF assms j] that i j show ?thesis
      by (simp add: descending_def)
  qed
  then show ?thesis
    by (simp add: sorted_wrt_iff_nth_less word_sless_alt)
qed

lemma loop_test:
  fixes m lo :: int64
  assumes "- (2 ^ 63) < sint lo" and "k \<le> nat (sint m - sint lo + 1)" and "sint lo \<le> sint m"
  shows "lo \<le>s m - of_nat k \<longleftrightarrow> k < nat (sint m - sint lo + 1)"
proof -
  have "- (2 ^ 63) \<le> sint m - int k"
    using assms by linarith
  then have "sint (m - of_nat k) = sint m - int k"
    by (rule sint_sub_nat)
  then show ?thesis
    using assms by (simp add: word_sle_eq) linarith
qed

subsection \<open>The sweep\<close>

lemma map_fst_update:
  "i < length xs \<Longrightarrow> fst (xs ! i) = h \<Longrightarrow> map fst (xs[i := (h, p)]) = map fst xs"
  by (simp add: map_update list_update_same_conv)

lemma main_step_sweep:
  assumes lo: "- (2 ^ 63) < sint lo" and le: "sint lo \<le> sint m"
    and inv: "sweep_inv lo m s" and st: "main_step lo s = Some s'"
  shows "sweep_inv lo m s'"
proof (cases "pc s")
  case LoopTest
  have "lo \<le>s currentHeight s \<longleftrightarrow> length (units s) < nat (sint m - sint lo + 1)"
    using inv loop_test [OF lo _ le, of "length (units s)"] by (simp add: sweep_inv_def)
  with inv st LoopTest show ?thesis
    by (auto simp: main_step_def sweep_inv_def)
next
  case WgAdd
  with inv st show ?thesis
    by (auto simp: main_step_def sweep_inv_def)
next
  case SemSend
  with inv st show ?thesis
    by (auto simp: main_step_def sweep_inv_def split: if_splits)
next
  case GoStmt
  with inv st show ?thesis
    by (auto simp: main_step_def sweep_inv_def pending_def)
next
  case WgWait
  with inv st show ?thesis
    by (auto simp: main_step_def sweep_inv_def split: if_splits)
next
  case Returned
  with st show ?thesis
    by (simp add: main_step_def)
qed

lemma pending_update:
  "i < length xs \<Longrightarrow>
     int (length (filter pending (xs[i := y]))) + (if pending (xs ! i) then 1 else 0)
       = int (length (filter pending xs)) + (if pending y then 1 else 0)"
  using length_filter_update [of i xs pending y] by (simp split: if_splits)

lemma unit_step_cases:
  assumes "unit_step up i s = Some s'"
  obtains
    (fetched) h b err tr where "i < length (units s)" "units s ! i = (h, Fetching)"
      "FetchAndStoreBlockDetails up h = (Return b err, tr)"
      "s' = s\<lparr>units := (units s)[i := (h, Deferred_Release)],
              trace := trace s @ tr @ (case err of None \<Rightarrow> [] | Some e \<Rightarrow> [Log ''Error indexing block'' e])\<rparr>"
  | (panicked) h p tr where "i < length (units s)" "units s ! i = (h, Fetching)"
      "FetchAndStoreBlockDetails up h = (Panic p, tr)"
      "s' = s\<lparr>trace := trace s @ tr, crashed := True\<rparr>"
  | (released) h where "i < length (units s)" "units s ! i = (h, Deferred_Release)"
      "0 < semaphore s"
      "s' = s\<lparr>units := (units s)[i := (h, Deferred_Done)], semaphore := semaphore s - 1\<rparr>"
  | (finished) h where "i < length (units s)" "units s ! i = (h, Deferred_Done)"
      "s' = s\<lparr>units := (units s)[i := (h, Exited)], wg := wg s - 1\<rparr>"
proof -
  from assms have i: "i < length (units s)"
    by (simp add: unit_step_def split: if_splits)
  obtain h ph where u: "units s ! i = (h, ph)"
    by (cases "units s ! i")
  show ?thesis
  proof (cases ph)
    case Fetching
    obtain r tr where f: "FetchAndStoreBlockDetails up h = (r, tr)"
      by (cases "FetchAndStoreBlockDetails up h")
    show ?thesis
    proof (cases r)
      case (Return b err)
      with assms i u Fetching f show ?thesis
        by (intro fetched [of h b err tr]) (simp_all add: unit_step_def)
    next
      case (Panic p)
      with assms i u Fetching f show ?thesis
        by (intro panicked [of h p tr]) (simp_all add: unit_step_def)
    qed
  next
    case Deferred_Release
    with assms i u show ?thesis
      by (intro released [of h]) (simp_all add: unit_step_def split: if_splits)
  next
    case Deferred_Done
    with assms i u show ?thesis
      by (intro finished [of h]) (simp_all add: unit_step_def)
  next
    case Exited
    with assms i u show ?thesis
      by (simp add: unit_step_def)
  qed
qed

lemma unit_step_sweep:
  assumes inv: "sweep_inv lo m s" and st: "unit_step up i s = Some s'"
  shows "sweep_inv lo m s'"
  using st
proof (cases rule: unit_step_cases)
  case (fetched h b err tr)
  with inv pending_update [of i "units s" "(h, Deferred_Release)"]
    map_fst_update [of i "units s" h Deferred_Release]
  show ?thesis
    by (auto simp: sweep_inv_def pending_def)
next
  case (panicked h p tr)
  with inv show ?thesis
    by (simp add: sweep_inv_def)
next
  case (released h)
  with inv pending_update [of i "units s" "(h, Deferred_Done)"]
    map_fst_update [of i "units s" h Deferred_Done]
  show ?thesis
    by (auto simp: sweep_inv_def pending_def)
next
  case (finished h)
  with inv pending_update [of i "units s" "(h, Exited)"]
    map_fst_update [of i "units s" h Exited]
  show ?thesis
    by (auto simp: sweep_inv_def pending_def)
qed

lemma step_sweep:
  assumes "- (2 ^ 63) < sint lo" and "sint lo \<le> sint m"
    and "sweep_inv lo m s" and "step up lo a s = Some s'"
  shows "sweep_inv lo m s'"
proof (cases a)
  case Main
  with assms show ?thesis
    by (auto simp: step_def split: if_splits intro: main_step_sweep)
next
  case (Unit i)
  with assms show ?thesis
    by (auto simp: step_def split: if_splits intro: unit_step_sweep)
qed

lemma run_sweep:
  assumes "- (2 ^ 63) < sint lo" and "sint lo \<le> sint m"
  shows "sweep_inv lo m s \<Longrightarrow> run up lo sch s = Some s' \<Longrightarrow> sweep_inv lo m s'"
proof (induction sch arbitrary: s)
  case Nil
  then show ?case by simp
next
  case (Cons a sch)
  from Cons.prems(2) obtain s1 where 1: "step up lo a s = Some s1" and 2: "run up lo sch s1 = Some s'"
    by (auto split: option.splits)
  from step_sweep [OF assms Cons.prems(1) 1] have "sweep_inv lo m s1" .
  then show ?case
    using 2 by (rule Cons.IH)
qed

lemma loop_entry_sweep: "sweep_inv lo m (loop_entry m)"
  by (simp add: sweep_inv_def loop_entry_def)

lemma sum_list_update_weight:
  "i < length xs \<Longrightarrow>
     sum_list (map f (xs[i := y])) + f (xs ! i) = sum_list (map f xs) + (f y :: nat)"
proof (induction xs arbitrary: i)
  case Nil
  then show ?case by simp
next
  case (Cons x xs)
  then show ?case
    by (cases i) auto
qed

lemma main_step_remaining:
  assumes lo: "- (2 ^ 63) < sint lo" and le: "sint lo \<le> sint m"
    and inv: "sweep_inv lo m s" and st: "main_step lo s = Some s'"
  shows "remaining lo m s' + 1 = remaining lo m s"
proof (cases "pc s")
  case LoopTest
  have "lo \<le>s currentHeight s \<longleftrightarrow> length (units s) < nat (sint m - sint lo + 1)"
    using inv loop_test [OF lo _ le, of "length (units s)"] by (simp add: sweep_inv_def)
  with inv st LoopTest show ?thesis
    by (auto simp: main_step_def sweep_inv_def remaining_def)
next
  case WgAdd
  with inv st show ?thesis
    by (auto simp: main_step_def sweep_inv_def remaining_def)
next
  case SemSend
  with inv st show ?thesis
    by (auto simp: main_step_def sweep_inv_def remaining_def split: if_splits)
next
  case GoStmt
  with inv st show ?thesis
    by (auto simp: main_step_def sweep_inv_def remaining_def)
next
  case WgWait
  with inv st show ?thesis
    by (auto simp: main_step_def sweep_inv_def remaining_def split: if_splits)
next
  case Returned
  with st show ?thesis
    by (simp add: main_step_def)
qed

lemma unit_step_remaining:
  assumes c: "\<not> crashed s" and st: "unit_step up i s = Some s'"
  shows "remaining lo m s' + 1 = remaining lo m s"
  using st
proof (cases rule: unit_step_cases)
  case (fetched h b err tr)
  with c sum_list_update_weight [of i "units s" "\<lambda>u. phase_weight (snd u)" "(h, Deferred_Release)"]
  show ?thesis
    by (simp add: remaining_def)
next
  case (panicked h p tr)
  with c show ?thesis
    by (simp add: remaining_def)
next
  case (released h)
  with c sum_list_update_weight [of i "units s" "\<lambda>u. phase_weight (snd u)" "(h, Deferred_Done)"]
  show ?thesis
    by (simp add: remaining_def)
next
  case (finished h)
  with c sum_list_update_weight [of i "units s" "\<lambda>u. phase_weight (snd u)" "(h, Exited)"]
  show ?thesis
    by (simp add: remaining_def)
qed

lemma step_remaining:
  assumes "- (2 ^ 63) < sint lo" and "sint lo \<le> sint m"
    and "sweep_inv lo m s" and "step up lo a s = Some s'"
  shows "remaining lo m s' + 1 = remaining lo m s"
proof (cases a)
  case Main
  with assms(4) have "main_step lo s = Some s'"
    by (simp add: step_def split: if_splits)
  with assms(1-3) show ?thesis
    by (rule main_step_remaining)
next
  case (Unit i)
  with assms(4) have "\<not> crashed s" and "unit_step up i s = Some s'"
    by (simp_all add: step_def split: if_splits)
  then show ?thesis
    by (rule unit_step_remaining)
qed

lemma run_remaining:
  assumes "- (2 ^ 63) < sint lo" and "sint lo \<le> sint m"
  shows "sweep_inv lo m s \<Longrightarrow> run up lo sch s = Some s' \<Longrightarrow>
           length sch + remaining lo m s' = remaining lo m s"
proof (induction sch arbitrary: s)
  case Nil
  then show ?case by simp
next
  case (Cons a sch)
  from Cons.prems(2) obtain s1 where 1: "step up lo a s = Some s1" and 2: "run up lo sch s1 = Some s'"
    by (auto split: option.splits)
  from step_sweep [OF assms Cons.prems(1) 1] have "sweep_inv lo m s1" .
  from Cons.IH [OF this 2] step_remaining [OF assms Cons.prems(1) 1] show ?case
    by simp
qed

lemma remaining_loop_entry:
  "remaining lo m (loop_entry m) = 7 * nat (sint m - sint lo + 1) + 3"
  by (simp add: remaining_def loop_entry_def)

lemma exists_pending:
  assumes "0 < length (filter P xs)"
  obtains i where "i < length xs" and "P (xs ! i)"
proof -
  from assms have "filter P xs \<noteq> []"
    by simp
  then obtain x where "x \<in> set (filter P xs)"
    by (meson last_in_set)
  then have "x \<in> set xs" and "P x"
    by simp_all
  then show ?thesis
    using that by (auto simp: in_set_conv_nth)
qed

lemma unit_can_move:
  assumes i: "i < length (units s)" and p: "pending (units s ! i)" and g: "gate_inv s"
  shows "\<exists>s'. unit_step up i s = Some s'"
proof -
  obtain h ph where u: "units s ! i = (h, ph)"
    by (cases "units s ! i")
  show ?thesis
  proof (cases ph)
    case Fetching
    obtain r tr where "FetchAndStoreBlockDetails up h = (r, tr)"
      by (cases "FetchAndStoreBlockDetails up h")
    with i u Fetching show ?thesis
      by (cases r) (simp_all add: unit_step_def)
  next
    case Deferred_Release
    with i u nth_mem [OF i] have "units s ! i \<in> set (filter holds_slot (units s))"
      by (simp add: holds_slot_def)
    then have "0 < active s"
      unfolding active_def by (metis length_pos_if_in_set)
    with g have "0 < semaphore s"
      by (simp add: gate_inv_def)
    with i u Deferred_Release show ?thesis
      by (simp add: unit_step_def)
  next
    case Deferred_Done
    with i u show ?thesis
      by (simp add: unit_step_def)
  next
    case Exited
    with p u show ?thesis
      by (simp add: pending_def)
  qed
qed

lemma unit_moves:
  assumes "0 < length (filter P (units s))" and "gate_inv s" and "\<not> crashed s"
    and "\<And>u. P u \<Longrightarrow> pending u"
  shows "\<exists>a s'. step up lo a s = Some s'"
proof -
  from assms(1) obtain i where i: "i < length (units s)" and "P (units s ! i)"
    by (rule exists_pending)
  then have "pending (units s ! i)"
    by (simp add: assms(4))
  from unit_can_move [OF i this assms(2), of up] obtain s' where "unit_step up i s = Some s'"
    by blast
  then have "step up lo (Unit i) s = Some s'"
    using assms(3) by (simp add: step_def)
  then show ?thesis by blast
qed

lemma progress:
  assumes inv: "sweep_inv lo m s" and g: "gate_inv s"
    and c: "\<not> crashed s" and r: "pc s \<noteq> Returned"
  shows "\<exists>a s'. step up lo a s = Some s'"
proof (cases "pc s")
  case LoopTest
  then have "\<exists>s'. step up lo Main s = Some s'"
    using c by (simp add: step_def main_step_def)
  then show ?thesis by blast
next
  case WgAdd
  then have "\<exists>s'. step up lo Main s = Some s'"
    using c by (simp add: step_def main_step_def)
  then show ?thesis by blast
next
  case SemSend
  show ?thesis
  proof (cases "semaphore s < capacity")
    case True
    with SemSend have "\<exists>s'. step up lo Main s = Some s'"
      using c by (simp add: step_def main_step_def)
    then show ?thesis by blast
  next
    case False
    with g SemSend have "length (filter holds_slot (units s)) = 100"
      by (simp add: gate_inv_def active_def capacity_def)
    then have "0 < length (filter holds_slot (units s))"
      by (simp only:)
    then show ?thesis
      using g c by (rule unit_moves) (auto simp: holds_slot_def pending_def)
  qed
next
  case GoStmt
  then have "\<exists>s'. step up lo Main s = Some s'"
    using c by (simp add: step_def main_step_def)
  then show ?thesis by blast
next
  case WgWait
  show ?thesis
  proof (cases "wg s = 0")
    case True
    with WgWait have "\<exists>s'. step up lo Main s = Some s'"
      using c by (simp add: step_def main_step_def)
    then show ?thesis by blast
  next
    case False
    with inv WgWait have "0 < length (filter pending (units s))"
      by (simp add: sweep_inv_def)
    then show ?thesis
      using g c by (rule unit_moves)
  qed
next
  case Returned
  with r show ?thesis by simp
qed

lemma resolver_never_panics: "GetLatestBlockHeightFromREST up \<noteq> Panic p"
  by (simp add: GetLatestBlockHeightFromREST_def
      split: http_result.splits sum.splits json.splits)

lemma scan_bound:
  obtains m where "StartIndexing_maxBlockHeight up hi = Some m" and "sint hi \<le> sint m"
proof (cases "GetLatestBlockHeightFromREST up")
  case (Return latest err)
  then show ?thesis
    by (intro that [of "if hi <s latest then latest else hi"])
       (simp_all add: StartIndexing_maxBlockHeight_def word_sless_alt)
next
  case (Panic p)
  then show ?thesis
    using resolver_never_panics by blast
qed

lemma no_pending_exited:
  assumes "length (filter pending xs) = 0" and "u \<in> set xs"
  shows "snd u = Exited"
proof (rule ccontr)
  assume "snd u \<noteq> Exited"
  with assms(2) have "u \<in> set (filter pending xs)"
    by (simp add: pending_def)
  with assms(1) show False
    by simp
qed

subsection \<open>Runs of the fixtures\<close>

lemma scenario_A_bound: "StartIndexing_maxBlockHeight scenario_A 12 = Some 12"
  by (simp add: StartIndexing_maxBlockHeight_def GetLatestBlockHeightFromREST_def scenario_A_def
      word_sless_alt)

lemma scenario_A_run:
  "\<exists>s. StartIndexing scenario_A 10 12 scenario_A_schedule = Some s \<and> pc s = Returned
       \<and> units s = [(12, Exited), (11, Exited), (10, Exited)] \<and> \<not> crashed s"
  by (simp add: StartIndexing_def scenario_A_bound scenario_A_schedule_def loop_entry_def
      step_def main_step_def unit_step_def scenario_A_fetch capacity_def word_sle_eq)

lemma min_bound:
  "StartIndexing_maxBlockHeight (tip_node ''-9223372036854775808'') (- 9223372036854775808)
     = Some (- 9223372036854775808)"
  by (simp add: StartIndexing_maxBlockHeight_def GetLatestBlockHeightFromREST_def tip_node_def
      Decode_def index_def StatusOK_def ParseInt_min word_sless_alt)

lemma spawn_one:
  fixes m lo :: int64
  assumes "- (2 ^ 63) < sint lo" and "sint lo \<le> sint m"
    and "n < 100" and "n < nat (sint m - sint lo + 1)"
  shows "run up lo [Main, Main, Main, Main] (fetching m n) = Some (fetching m (Suc n))"
proof -
  have "lo \<le>s m - of_nat n"
    using loop_test [OF assms(1) _ assms(2), of n] assms(4) by simp
  with assms(3) show ?thesis
    by (simp add: fetching_def step_def main_step_def capacity_def)
qed

lemma spawn_many:
  fixes m lo :: int64
  assumes "- (2 ^ 63) < sint lo" and "sint lo \<le> sint m"
  shows "n \<le> 100 \<Longrightarrow> n \<le> nat (sint m - sint lo + 1) \<Longrightarrow>
           run up lo (iterations n) (loop_entry m) = Some (fetching m n)"
proof (induction n)
  case 0
  then show ?case
    by (simp add: iterations_def fetching_def loop_entry_def)
next
  case (Suc n)
  then have "run up lo (iterations n) (loop_entry m) = Some (fetching m n)"
    by simp
  moreover have "run up lo [Main, Main, Main, Main] (fetching m n) = Some (fetching m (Suc n))"
    using assms Suc.prems by (intro spawn_one) simp_all
  ultimately show ?case
    by (simp only: iterations_Suc run_append option.case)
qed

lemma active_fetching: "active (fetching m n\<lparr>wg := w, pc := p\<rparr>) = n"
  by (simp add: active_def fetching_def holds_slot_def filter_map o_def)

lemma scenario_A_bound_1000: "StartIndexing_maxBlockHeight scenario_A 1000 = Some 1000"
  by (simp add: StartIndexing_maxBlockHeight_def GetLatestBlockHeightFromREST_def scenario_A_def
      word_sless_alt)

lemma gate_full:
  "StartIndexing scenario_A 1 1000 (iterations 100 @ [Main, Main])
     = Some (fetching 1000 100\<lparr>wg := 101, pc := SemSend\<rparr>)"
proof -
  have "run scenario_A 1 (iterations 100) (loop_entry 1000) = Some (fetching 1000 100)"
    by (rule spawn_many) simp_all
  moreover have "run scenario_A 1 [Main, Main] (fetching 1000 100)
                   = Some (fetching 1000 100\<lparr>wg := 101, pc := SemSend\<rparr>)"
    by (simp add: fetching_def step_def main_step_def word_sle_eq)
  ultimately show ?thesis
    by (simp only: StartIndexing_def scenario_A_bound_1000 run_append option.case)
qed

text \<open>
  With \<open>minBlockHeight\<close> at the least \<open>int64\<close> the loop condition holds for every
  \<open>currentHeight\<close>, so the invocation never leaves the loop.
\<close>

lemma min_loop_inv:
  assumes "pc s \<in> {LoopTest, WgAdd, SemSend, GoStmt}"
    and "step up (- 9223372036854775808) a s = Some s'"
  shows "pc s' \<in> {LoopTest, WgAdd, SemSend, GoStmt}"
proof (cases a)
  case Main
  have "(- 9223372036854775808 :: int64) \<le>s currentHeight s"
    using sint_bounds64(1) [of "currentHeight s"] by (simp add: word_sle_eq)
  with assms Main show ?thesis
    by (auto simp: step_def main_step_def split: if_splits)
next
  case (Unit i)
  with assms(2) have "unit_step up i s = Some s'"
    by (simp add: step_def split: if_splits)
  then show ?thesis
    using assms(1) by (cases rule: unit_step_cases) auto
qed

lemma min_never_returns:
  "pc s \<in> {LoopTest, WgAdd, SemSend, GoStmt} \<Longrightarrow>
     run up (- 9223372036854775808) sch s = Some s' \<Longrightarrow> pc s' \<noteq> Returned"
proof (induction sch arbitrary: s)
  case Nil
  then show ?case by auto
next
  case (Cons a sch)
  from Cons.prems(2) obtain s1 where 1: "step up (- 9223372036854775808) a s = Some s1"
    and 2: "run up (- 9223372036854775808) sch s1 = Some s'"
    by (auto split: option.splits)
  from min_loop_inv [OF Cons.prems(1) 1] 2 show ?case
    by (rule Cons.IH)
qed

lemma StartIndexing_min_never_returns:
  assumes "StartIndexing up (- 9223372036854775808) hi sch = Some s"
  shows "pc s \<noteq> Returned"
proof -
  from assms obtain m where "run up (- 9223372036854775808) sch (loop_entry m) = Some s"
    by (auto simp: StartIndexing_def split: option.splits)
  moreover have "pc (loop_entry m) \<in> {LoopTest, WgAdd, SemSend, GoStmt}"
    by (simp add: loop_entry_def)
  ultimately show ?thesis
    using min_never_returns by blast
qed

lemma no_block_id_fetch:
  "fst (FetchAndStoreBlockDetails no_block_id h) =
     Panic ''interface conversion: interface {} is not map[string]interface {}''"
  by (simp add: FetchAndStoreBlockDetails_def getBlockResults_def getBlock_def no_block_id_def
      scenario_A_def Decode_def index_def)

subsection \<open>Bounded concurrency\<close>

text \<open>
  C6. In every state that an invocation of \<open>StartIndexing\<close> reaches, under every
  schedule, at most 100 goroutines hold a slot. When 100 hold one and the loop is at its
  send, the loop cannot move: it stays blocked until a slot is freed. A goroutine whose
  call has returned can always run its deferred receive, which frees one slot.
\<close>

theorem at_most_100_active:
  assumes "StartIndexing up lo hi sch = Some s"
  shows "active s \<le> 100
         \<and> (pc s = SemSend \<and> active s = 100 \<longrightarrow> step up lo Main s = None)
         \<and> (i < length (units s) \<and> snd (units s ! i) = Deferred_Release \<and> \<not> crashed s \<longrightarrow>
              (\<exists>s'. step up lo (Unit i) s = Some s' \<and> active s' + 1 = active s
                    \<and> semaphore s' + 1 = semaphore s))"
proof -
  from assms have g: "gate_inv s"
    by (rule StartIndexing_gate)
  then have 1: "active s \<le> 100"
    by (simp add: gate_inv_def capacity_def split: if_splits)
  have 2: "pc s = SemSend \<and> active s = 100 \<longrightarrow> step up lo Main s = None"
    using g by (simp add: gate_inv_def step_def main_step_def capacity_def)
  have 3: "i < length (units s) \<and> snd (units s ! i) = Deferred_Release \<and> \<not> crashed s \<longrightarrow>
              (\<exists>s'. step up lo (Unit i) s = Some s' \<and> active s' + 1 = active s
                    \<and> semaphore s' + 1 = semaphore s)"
  proof
    assume a: "i < length (units s) \<and> snd (units s ! i) = Deferred_Release \<and> \<not> crashed s"
    then obtain h where u: "units s ! i = (h, Deferred_Release)"
      by (cases "units s ! i") simp
    with a have "holds_slot (units s ! i)"
      by (simp add: holds_slot_def)
    then have "units s ! i \<in> set (filter holds_slot (units s))"
      using a by simp
    then have "0 < active s"
      unfolding active_def by (metis length_pos_if_in_set)
    with g have pos: "0 < semaphore s"
      by (simp add: gate_inv_def)
    with a u active_update [of i s "(h, Deferred_Done)"]
    show "\<exists>s'. step up lo (Unit i) s = Some s' \<and> active s' + 1 = active s
                    \<and> semaphore s' + 1 = semaphore s"
      by (simp add: step_def unit_step_def holds_slot_def)
  qed
  from 1 2 3 show ?thesis by blast
qed

theorem at_most_100_active_witness:
  "active (fetching 1000 100\<lparr>wg := 101, pc := SemSend\<rparr>) = 100
   \<and> step scenario_A 1 Main (fetching 1000 100\<lparr>wg := 101, pc := SemSend\<rparr>) = None
   \<and> (\<exists>s'. step scenario_A 1 (Unit 0) (fetching 1000 100\<lparr>wg := 101, pc := SemSend\<rparr>) = Some s'
            \<and> step scenario_A 1 (Unit 0) s' \<noteq> None)
   \<and> (\<exists>s s'. StartIndexing scenario_A 10 12 [Main, Main, Main, Main, Unit 0] = Some s
              \<and> step scenario_A 10 (Unit 0) s = Some s' \<and> active s = 1 \<and> active s' = 0)"
proof -
  let ?full = "fetching 1000 100\<lparr>wg := 101, pc := SemSend\<rparr>"
  have a: "active ?full = 100"
    by (rule active_fetching)
  have p: "pc ?full = SemSend"
    by simp
  from at_most_100_active [OF gate_full] a p have 1: "step scenario_A 1 Main ?full = None"
    by blast
  have u: "units ?full ! 0 = (1000, Fetching)" "0 < length (units ?full)" "\<not> crashed ?full"
    by (simp_all add: fetching_def nth_map upt_conv_Cons del: upt_Suc)
  have 2: "\<exists>s'. step scenario_A 1 (Unit 0) ?full = Some s'
            \<and> step scenario_A 1 (Unit 0) s' \<noteq> None"
    using u by (simp add: step_def unit_step_def scenario_A_fetch)
      (simp add: fetching_def)
  obtain s where run: "StartIndexing scenario_A 10 12 [Main, Main, Main, Main, Unit 0] = Some s"
    and s: "units s = [(12, Deferred_Release)]" "\<not> crashed s"
    by (simp add: StartIndexing_def scenario_A_bound loop_entry_def step_def main_step_def
        unit_step_def scenario_A_fetch capacity_def word_sle_eq)
  from s have "0 < length (units s) \<and> snd (units s ! 0) = Deferred_Release \<and> \<not> crashed s"
    by simp
  with at_most_100_active [OF run, where i = 0] obtain s'
    where "step scenario_A 10 (Unit 0) s = Some s'" and "active s' + 1 = active s"
    by blast
  moreover from s have "active s = 1"
    by (simp add: active_def holds_slot_def)
  ultimately have 3: "\<exists>s s'. StartIndexing scenario_A 10 12 [Main, Main, Main, Main, Unit 0] = Some s
              \<and> step scenario_A 10 (Unit 0) s = Some s' \<and> active s = 1 \<and> active s' = 0"
    using run by auto
  from a 1 2 3 show ?thesis
    by blast
qed

subsection \<open>The sweep visits every height once\<close>

text \<open>
  The sweep as far as no goroutine panics. Let \<open>minBlockHeight\<close> be greater than the
  least \<open>int64\<close> and at most \<open>maxBlockHeight\<close>, and let \<open>m\<close> be the upper bound the
  invocation resolves. The heights
  from \<open>m\<close> down to \<open>minBlockHeight\<close> are distinct, are exactly the heights of the range,
  and are in descending order; in every state the invocation reaches, the goroutines
  started so far are those of an initial part of that list, one each and in that order.
  When \<open>StartIndexing\<close> has returned, one goroutine has been started for every height of
  the list and all of them have exited. As long as nothing has panicked and the call has
  not returned, someone can move, and every run has exactly \<open>7 n + 3\<close> steps minus those
  left, \<open>n\<close> being the number of heights: the sweep cannot go on forever. A goroutine whose
  call returns an error logs it and goes on to its deferred calls; nothing else in the
  state changes.
\<close>

lemma sweep_visits_each_height_once:
  assumes lo: "- (2 ^ 63) < sint lo" and le: "lo \<le>s hi"
    and run: "StartIndexing up lo hi sch = Some s"
  shows "\<exists>m. StartIndexing_maxBlockHeight up hi = Some m \<and> hi \<le>s m
           \<and> distinct (descending m lo)
           \<and> set (descending m lo) = {h. lo \<le>s h \<and> h \<le>s m}
           \<and> sorted_wrt (\<lambda>a b. b <s a) (descending m lo)
           \<and> map fst (units s) = take (length (units s)) (descending m lo)
           \<and> (pc s = Returned \<longrightarrow>
                 map fst (units s) = descending m lo \<and> (\<forall>u \<in> set (units s). snd u = Exited))
           \<and> (\<not> crashed s \<and> pc s \<noteq> Returned \<longrightarrow> (\<exists>a s'. step up lo a s = Some s'))
           \<and> length sch + remaining lo m s = 7 * length (descending m lo) + 3
           \<and> (\<forall>i h b e. i < length (units s) \<and> units s ! i = (h, Fetching) \<and> \<not> crashed s
                 \<and> fst (FetchAndStoreBlockDetails up h) = Return b (Some e) \<longrightarrow>
                 step up lo (Unit i) s =
                   Some (s\<lparr>units := (units s)[i := (h, Deferred_Release)],
                           trace := trace s @ snd (FetchAndStoreBlockDetails up h)
                                      @ [Log ''Error indexing block'' e]\<rparr>))"
proof -
  obtain m where m: "StartIndexing_maxBlockHeight up hi = Some m" and hm: "sint hi \<le> sint m"
    by (rule scan_bound)
  from le hm have lm: "sint lo \<le> sint m"
    by (simp add: word_sle_eq)
  from run m have r: "run up lo sch (loop_entry m) = Some s"
    by (simp add: StartIndexing_def)
  have inv: "sweep_inv lo m s"
    using lo lm loop_entry_sweep r by (rule run_sweep)
  have g: "gate_inv s"
    using loop_entry_gate r by (rule run_gate)
  have 1: "map fst (units s) = take (length (units s)) (descending m lo)"
    using inv descending_take [of "length (units s)" m lo] by (simp add: sweep_inv_def)
  have 2: "pc s = Returned \<longrightarrow>
             map fst (units s) = descending m lo \<and> (\<forall>u \<in> set (units s). snd u = Exited)"
  proof (intro impI conjI ballI)
    assume p: "pc s = Returned"
    with inv have k: "length (units s) = nat (sint m - sint lo + 1)"
      by (simp add: sweep_inv_def)
    with 1 show "map fst (units s) = descending m lo"
      by (simp add: length_descending)
    fix u assume u: "u \<in> set (units s)"
    from inv p have "length (filter pending (units s)) = 0"
      by (simp add: sweep_inv_def)
    then show "snd u = Exited"
      using u by (rule no_pending_exited)
  qed
  have 3: "\<not> crashed s \<and> pc s \<noteq> Returned \<longrightarrow> (\<exists>a s'. step up lo a s = Some s')"
    using progress [OF inv g] by blast
  have 4: "length sch + remaining lo m s = 7 * length (descending m lo) + 3"
    using run_remaining [OF lo lm loop_entry_sweep r]
    by (simp add: remaining_loop_entry length_descending)
  have 5: "\<forall>i h b e. i < length (units s) \<and> units s ! i = (h, Fetching) \<and> \<not> crashed s
                 \<and> fst (FetchAndStoreBlockDetails up h) = Return b (Some e) \<longrightarrow>
                 step up lo (Unit i) s =
                   Some (s\<lparr>units := (units s)[i := (h, Deferred_Release)],
                           trace := trace s @ snd (FetchAndStoreBlockDetails up h)
                                      @ [Log ''Error indexing block'' e]\<rparr>)"
  proof (intro allI impI)
    fix i h b e
    assume a: "i < length (units s) \<and> units s ! i = (h, Fetching) \<and> \<not> crashed s
                 \<and> fst (FetchAndStoreBlockDetails up h) = Return b (Some e)"
    then show "step up lo (Unit i) s =
                   Some (s\<lparr>units := (units s)[i := (h, Deferred_Release)],
                           trace := trace s @ snd (FetchAndStoreBlockDetails up h)
                                      @ [Log ''Error indexing block'' e]\<rparr>)"
      by (cases "FetchAndStoreBlockDetails up h") (simp add: step_def unit_step_def)
  qed
  from m hm distinct_descending [OF lo, of m] set_descending [OF lo, of m]
    descending_sorted [OF lo, of m] 1 2 3 4 5
  show ?thesis
    by (simp add: word_sle_eq)
qed

lemma sweep_of_scenario_A:
  "(\<exists>s. StartIndexing scenario_A 10 12 scenario_A_schedule = Some s \<and> pc s = Returned
        \<and> map fst (units s) = [12, 11, 10]
        \<and> length scenario_A_schedule + remaining 10 12 s = 7 * 3 + 3)
   \<and> descending 12 10 = [12, 11, 10]
   \<and> (\<exists>s s'. StartIndexing scenario_B 14 16 [Main, Main, Main, Main, Main, Main, Main, Main] = Some s
         \<and> step scenario_B 14 (Unit 1) s = Some s'
         \<and> units s' = [(16, Fetching), (15, Deferred_Release)] \<and> pc s' = pc s \<and> \<not> crashed s'
         \<and> last (trace s') = Log ''Error indexing block''
              (Wrapf ''error getting block details''
                 (Wrapf ''error decoding block results'' JsonSyntaxError)))"
proof -
  have d: "descending 12 10 = [12, 11, 10]"
    by (simp add: descending_def upt_conv_Cons del: upt_Suc)
  have lo: "- (2 ^ 63) < sint (10 :: int64)" and le: "(10 :: int64) \<le>s 12"
    by (simp_all add: word_sle_eq)
  obtain s where run: "StartIndexing scenario_A 10 12 scenario_A_schedule = Some s"
    and ret: "pc s = Returned"
    using scenario_A_run by blast
  from sweep_visits_each_height_once [OF lo le run] obtain m
    where m: "StartIndexing_maxBlockHeight scenario_A 12 = Some m"
      and r: "pc s = Returned \<longrightarrow>
                map fst (units s) = descending m 10 \<and> (\<forall>u \<in> set (units s). snd u = Exited)"
      and n: "length scenario_A_schedule + remaining 10 m s = 7 * length (descending m 10) + 3"
    by blast
  from m scenario_A_bound have "m = 12"
    by simp
  with r n ret have "map fst (units s) = descending 12 10"
    and "length scenario_A_schedule + remaining 10 12 s = 7 * length (descending 12 10) + 3"
    by simp_all
  with run ret d have 1: "\<exists>s. StartIndexing scenario_A 10 12 scenario_A_schedule = Some s
        \<and> pc s = Returned \<and> map fst (units s) = [12, 11, 10]
        \<and> length scenario_A_schedule + remaining 10 12 s = 7 * 3 + 3"
    by auto
  have b: "StartIndexing_maxBlockHeight scenario_B 16 = Some 16"
    by (simp add: StartIndexing_maxBlockHeight_def GetLatestBlockHeightFromREST_def scenario_B_def
        scenario_A_def word_sless_alt)
  obtain t where runB: "StartIndexing scenario_B 14 16 [Main, Main, Main, Main, Main, Main, Main, Main] = Some t"
    and t: "units t = [(16, Fetching), (15, Fetching)]" "\<not> crashed t"
    by (simp add: StartIndexing_def b loop_entry_def step_def main_step_def capacity_def word_sle_eq)
  have f: "fst (FetchAndStoreBlockDetails scenario_B 15) =
     Return BlockDetails_zero (Some (Wrapf ''error getting block details''
       (Wrapf ''error decoding block results'' JsonSyntaxError)))"
    by (simp add: FetchAndStore_cases scenario_B_getBlockResults)
  have lo': "- (2 ^ 63) < sint (14 :: int64)" and le': "(14 :: int64) \<le>s 16"
    by (simp_all add: word_sle_eq)
  from t f have "1 < length (units t) \<and> units t ! 1 = (15, Fetching) \<and> \<not> crashed t
      \<and> fst (FetchAndStoreBlockDetails scenario_B 15) =
          Return BlockDetails_zero (Some (Wrapf ''error getting block details''
            (Wrapf ''error decoding block results'' JsonSyntaxError)))"
    by simp
  with sweep_visits_each_height_once [OF lo' le' runB]
  have "step scenario_B 14 (Unit 1) t =
          Some (t\<lparr>units := (units t)[1 := (15, Deferred_Release)],
                  trace := trace t @ snd (FetchAndStoreBlockDetails scenario_B 15)
                    @ [Log ''Error indexing block'' (Wrapf ''error getting block details''
                         (Wrapf ''error decoding block results'' JsonSyntaxError))]\<rparr>)"
    by blast
  with runB t have 2: "\<exists>s s'. StartIndexing scenario_B 14 16 [Main, Main, Main, Main, Main, Main, Main, Main] = Some s
         \<and> step scenario_B 14 (Unit 1) s = Some s'
         \<and> units s' = [(16, Fetching), (15, Deferred_Release)] \<and> pc s' = pc s \<and> \<not> crashed s'
         \<and> last (trace s') = Log ''Error indexing block''
              (Wrapf ''error getting block details''
                 (Wrapf ''error decoding block results'' JsonSyntaxError))"
    by auto
  from 1 d 2 show ?thesis
    by blast
qed

text \<open>
  At the least \<open>int64\<close> the countdown has no end. With ceiling and tip both at that
  height the range is that single height; after it \<open>currentHeight--\<close> wraps around to
  the greatest \<open>int64\<close>, the loop condition still holds, and a second goroutine is
  started for a height that is above the upper bound.
\<close>

lemma sweep_wraps_at_min:
  "\<exists>s. StartIndexing (tip_node ''-9223372036854775808'') (- 9223372036854775808)
          (- 9223372036854775808) [Main, Main, Main, Main, Main, Main, Main, Main] = Some s
       \<and> map fst (units s) = [- 9223372036854775808, 9223372036854775807]
       \<and> \<not> (9223372036854775807 :: int64) \<le>s - 9223372036854775808"
  by (simp add: StartIndexing_def min_bound loop_entry_def
      step_def main_step_def capacity_def word_sle_eq)

subsection \<open>A goroutine that panics\<close>

text \<open>
  C5. A failure of a single unit that is a panic is neither logged nor survived. On the
  sweep of the heights 12 down to 10 against a node whose \<open>/block\<close> answers carry a
  \<open>result\<close> without \<open>block_id\<close>, the call of \<open>FetchAndStoreBlockDetails\<close> for height 12
  panics in the single-value type assertion of \<open>getBlock\<close>. Nothing recovers the panic,
  so the process ends: one goroutine has been started, for height 12 only, nothing has
  been logged, no one can move, and no schedule continues the run; the heights 11 and 10
  are never scheduled and \<open>StartIndexing\<close> never returns.
\<close>

theorem unit_panic_aborts_sweep:
  "descending 12 10 = [12, 11, 10]
   \<and> fst (FetchAndStoreBlockDetails no_block_id 12)
       = Panic ''interface conversion: interface {} is not map[string]interface {}''
   \<and> (\<exists>s. StartIndexing no_block_id 10 12 [Main, Main, Main, Main, Unit 0] = Some s
          \<and> crashed s \<and> units s = [(12, Fetching)] \<and> pc s = LoopTest
          \<and> logged (trace s) = [] \<and> (\<forall>a. step no_block_id 10 a s = None))
   \<and> (\<forall>a sch. StartIndexing no_block_id 10 12 ([Main, Main, Main, Main, Unit 0] @ a # sch) = None)"
proof -
  have d: "descending 12 10 = [12, 11, 10]"
    by (simp add: descending_def upt_conv_Cons del: upt_Suc)
  have b: "StartIndexing_maxBlockHeight no_block_id 12 = Some 12"
    by (simp add: StartIndexing_maxBlockHeight_def GetLatestBlockHeightFromREST_def
        no_block_id_def scenario_A_def word_sless_alt)
  obtain tr where f: "FetchAndStoreBlockDetails no_block_id 12 =
      (Panic ''interface conversion: interface {} is not map[string]interface {}'', tr)"
    and tr: "logged tr = []"
    by (simp add: FetchAndStoreBlockDetails_def getBlockResults_def getBlock_def no_block_id_def
        scenario_A_def Decode_def index_def)
  let ?s = "\<lparr>pc = LoopTest, currentHeight = 11, semaphore = 1, wg = 1,
             units = [(12, Fetching)], trace = tr, crashed = True\<rparr>"
  have r: "run no_block_id 10 [Main, Main, Main, Main, Unit 0] (loop_entry 12) = Some ?s"
    by (simp add: loop_entry_def step_def main_step_def unit_step_def capacity_def word_sle_eq f)
  then have 1: "StartIndexing no_block_id 10 12 [Main, Main, Main, Main, Unit 0] = Some ?s"
    by (simp add: StartIndexing_def b)
  have 2: "\<forall>a. step no_block_id 10 a ?s = None"
    by (simp add: step_def)
  have 3: "\<forall>a sch. StartIndexing no_block_id 10 12 ([Main, Main, Main, Main, Unit 0] @ a # sch) = None"
    by (simp only: StartIndexing_def b option.case run_append r) (simp add: step_def)
  have 4: "\<exists>s. StartIndexing no_block_id 10 12 [Main, Main, Main, Main, Unit 0] = Some s
          \<and> crashed s \<and> units s = [(12, Fetching)] \<and> pc s = LoopTest
          \<and> logged (trace s) = [] \<and> (\<forall>a. step no_block_id 10 a s = None)"
    using 1 2 tr by (intro exI [of _ ?s]) simp
  from d f 4 3 show ?thesis
    by simp
qed

end
